theory Spec2Isabelle
  imports Main
begin

section \<open>Values, errors and the key-value store\<close>

text \<open>
  The repository keeps every record in one Keyv store: a flat map from string keys to
  untyped JavaScript values. The values the code writes are strings (the active-account
  pointer), arrays of strings (the linked-accounts list), \<open>AccountInfo\<close> objects
  (metadata) and opaque token payloads. A value read is taken to be a
  copy of what was written (Keyv stores serialised data), so the store is a map of values.
\<close>

record AccountInfo =
  email :: string
  "alias" :: "string option"
  addedAt :: string
  lastUsed :: "string option"
  metadata :: "(string \<times> string) list option"

datatype jsval =
    JStr string
  | JArr "string list"
  | JInfo AccountInfo
  | JToken string

type_synonym store = "string \<Rightarrow> jsval option"

text \<open>
  Every \<open>throw\<close> of the modelled code is a constructor. \<open>InvalidKeyParameter\<close> is
  the error of \<open>validateKeyParams\<close> (its message text, which names the first offending
  entry, is not kept). \<open>TypeError\<close> is what JavaScript raises when an array method is
  called on a stored value that is not an array. \<open>AuthRejected\<close> is a rejection of the
  authentication provider, \<open>StoreError\<close> an error raised by the store's iterator.
  \<open>McpError\<close> is the wrapper the tool handlers throw: its first argument is the message
  prefix, its second the cause.
\<close>

datatype error =
    InvalidKeyParameter
  | TypeError
  | NoAccountsToRemove string
  | AccountNotFound string
  | OAuthNoActiveAccount
  | AuthRejected string
  | StoreError string
  | McpError string error

text \<open>JavaScript truthiness of the result of \<open>store.get\<close>: \<open>undefined\<close> and the empty
  string are falsy, arrays and objects are truthy.\<close>

fun truthy :: "jsval option \<Rightarrow> bool" where
  "truthy None = False"
| "truthy (Some (JStr s)) = (s \<noteq> [])"
| "truthy (Some (JArr xs)) = True"
| "truthy (Some (JInfo i)) = True"
| "truthy (Some (JToken t)) = True"

section \<open>key-utils.ts\<close>

datatype AccountKeyType = Token | Metadata | DcrClient

datatype ServiceKeyType = Active | Linked

fun account_type_str :: "AccountKeyType \<Rightarrow> string" where
  "account_type_str Token = ''token''"
| "account_type_str Metadata = ''metadata''"
| "account_type_str DcrClient = ''dcr-client''"

fun service_type_str :: "ServiceKeyType \<Rightarrow> string" where
  "service_type_str Active = ''active''"
| "service_type_str Linked = ''linked''"

text \<open>\<open>AccountKeyParams\<close>; \<open>ServiceKeyParams\<close> has the single field \<open>service\<close> and is
  passed as a plain string.\<close>

record AccountKeyParams =
  accountId :: string
  service :: string

text \<open>\<open>value.includes(':')\<close>\<close>

definition has_colon :: "string \<Rightarrow> bool" where
  "has_colon v = (CHR '':'' \<in> set v)"

text \<open>\<open>validateKeyParams\<close>: the loop over \<open>Object.entries(params)\<close>. The parameters
  are strings by type, so only the colon check can fail.\<close>

fun validateKeyParams :: "string list \<Rightarrow> error + unit" where
  "validateKeyParams [] = Inr ()"
| "validateKeyParams (v # vs) =
     (if has_colon v then Inl InvalidKeyParameter else validateKeyParams vs)"

definition createAccountKey :: "AccountKeyType \<Rightarrow> AccountKeyParams \<Rightarrow> error + string" where
  "createAccountKey type params =
     (case validateKeyParams [accountId params, service params] of
        Inl e \<Rightarrow> Inl e
      | Inr _ \<Rightarrow> Inr (accountId params @ '':'' @ service params @ '':'' @ account_type_str type))"

definition createServiceKey :: "ServiceKeyType \<Rightarrow> string \<Rightarrow> error + string" where
  "createServiceKey type svc =
     (case validateKeyParams [svc] of
        Inl e \<Rightarrow> Inl e
      | Inr _ \<Rightarrow> Inr (svc @ '':'' @ service_type_str type))"

text \<open>\<open>key.split(':')\<close>: the segments between the delimiters; never the empty list.\<close>

fun split :: "char \<Rightarrow> string \<Rightarrow> string list" where
  "split d [] = [[]]"
| "split d (c # cs) =
     (if c = d then [] # split d cs
      else (case split d cs of
              [] \<Rightarrow> [[c]]
            | p # ps \<Rightarrow> (c # p) # ps))"

definition parseTokenKey :: "string \<Rightarrow> AccountKeyParams option" where
  "parseTokenKey key =
     (case split CHR '':'' key of
        [p0, p1, p2] \<Rightarrow>
          (if p2 \<noteq> ''token'' \<or> p0 = [] \<or> p1 = [] then None
           else Some \<lparr>accountId = p0, service = p1\<rparr>)
      | _ \<Rightarrow> None)"

section \<open>Store access with exceptions\<close>

text \<open>
  The code is a sequence of awaited store calls, any of which may be preceded by a
  \<open>throw\<close>. A computation takes the state and returns either the error thrown or
  the value, together with the state as it is at that moment: a \<open>throw\<close> after a write keeps
  the write, as in the JavaScript. The store itself (an in-memory Keyv) does not fail.
\<close>

type_synonym ('s, 'a) io = "'s \<Rightarrow> (error + 'a) \<times> 's"

definition io_return :: "'a \<Rightarrow> ('s, 'a) io" where
  "io_return x st = (Inr x, st)"

definition io_throw :: "error \<Rightarrow> ('s, 'a) io" where
  "io_throw e st = (Inl e, st)"

definition io_bind :: "('s, 'a) io \<Rightarrow> ('a \<Rightarrow> ('s, 'b) io) \<Rightarrow> ('s, 'b) io" where
  "io_bind m f st =
     (case m st of
        (Inl e, st') \<Rightarrow> (Inl e, st')
      | (Inr x, st') \<Rightarrow> f x st')"

text \<open>A pure step that may throw (key construction).\<close>

definition io_lift :: "error + 'a \<Rightarrow> ('s, 'a) io" where
  "io_lift r st = (r, st)"

definition store_get :: "string \<Rightarrow> (store, jsval option) io" where
  "store_get key st = (Inr (st key), st)"

definition store_set :: "string \<Rightarrow> jsval \<Rightarrow> (store, unit) io" where
  "store_set key v st = (Inr (), st(key \<mapsto> v))"

definition store_delete :: "string \<Rightarrow> (store, unit) io" where
  "store_delete key st = (Inr (), st(key := None))"

text \<open>
  The first array method called on a value read from the store (\<open>includes\<close>,
  \<open>filter\<close>): on an array it proceeds, on an object it is a \<open>TypeError\<close>. The declared
  type of the linked-accounts list is \<open>string[]\<close>; a non-empty string stored under a
  linked key (where JavaScript's \<open>includes\<close> would test for a substring) is outside that
  type and is a \<open>TypeError\<close> here as well.
\<close>

fun as_array :: "jsval \<Rightarrow> ('s, string list) io" where
  "as_array (JArr xs) = io_return xs"
| "as_array (JStr s) = io_throw TypeError"
| "as_array (JInfo i) = io_throw TypeError"
| "as_array (JToken t) = io_throw TypeError"

section \<open>account-utils.ts\<close>

definition getActiveAccount :: "string \<Rightarrow> (store, jsval option) io" where
  "getActiveAccount svc =
     io_bind (io_lift (createServiceKey Active svc)) (\<lambda>key. store_get key)"

text \<open>\<open>setActiveAccount\<close>: the account is \<open>Some a\<close>, or \<open>None\<close> for \<open>accountId: null\<close>
  (deactivation).\<close>

definition setActiveAccount :: "string \<Rightarrow> string option \<Rightarrow> (store, unit) io" where
  "setActiveAccount svc acct =
     io_bind (io_lift (createServiceKey Active svc)) (\<lambda>key.
       case acct of
         None \<Rightarrow> store_delete key
       | Some a \<Rightarrow> store_set key (JStr a))"

text \<open>\<open>accounts || []\<close>\<close>

definition or_empty_array :: "jsval option \<Rightarrow> jsval" where
  "or_empty_array accounts =
     (case accounts of
        None \<Rightarrow> JArr []
      | Some v \<Rightarrow> if truthy accounts then v else JArr [])"

definition getLinkedAccounts :: "string \<Rightarrow> (store, jsval) io" where
  "getLinkedAccounts svc =
     io_bind (io_lift (createServiceKey Linked svc)) (\<lambda>key.
     io_bind (store_get key) (\<lambda>accounts.
     io_return (or_empty_array accounts)))"

definition addAccount :: "AccountKeyParams \<Rightarrow> (store, unit) io" where
  "addAccount params =
     io_bind (getLinkedAccounts (service params)) (\<lambda>linked.
     io_bind (as_array linked) (\<lambda>xs.
     io_bind (if accountId params \<notin> set xs
              then io_bind (io_lift (createServiceKey Linked (service params))) (\<lambda>linkedKey.
                   store_set linkedKey (JArr (xs @ [accountId params])))
              else io_return ()) (\<lambda>_.
     io_bind (getActiveAccount (service params)) (\<lambda>active.
     if \<not> truthy active
     then setActiveAccount (service params) (Some (accountId params))
     else io_return ()))))"

definition removeAccount :: "AccountKeyParams \<Rightarrow> (store, unit) io" where
  "removeAccount params =
     io_bind (io_lift (createAccountKey Token params)) (\<lambda>tokenKey.
     io_bind (store_delete tokenKey) (\<lambda>_.
     io_bind (io_lift (createAccountKey Metadata params)) (\<lambda>infoKey.
     io_bind (store_delete infoKey) (\<lambda>_.
     io_bind (getLinkedAccounts (service params)) (\<lambda>linked.
     io_bind (as_array linked) (\<lambda>xs.
     let filtered = filter (\<lambda>id. id \<noteq> accountId params) xs in
     io_bind (io_lift (createServiceKey Linked (service params))) (\<lambda>linkedKey.
     io_bind (store_set linkedKey (JArr filtered)) (\<lambda>_.
     io_bind (getActiveAccount (service params)) (\<lambda>active.
     if active = Some (JStr (accountId params))
     then (case filtered of
             newActive # _ \<Rightarrow>
               if newActive \<noteq> []
               then setActiveAccount (service params) (Some newActive)
               else io_bind (io_lift (createServiceKey Active (service params))) (\<lambda>activeKey.
                    store_delete activeKey)
           | [] \<Rightarrow>
               io_bind (io_lift (createServiceKey Active (service params))) (\<lambda>activeKey.
               store_delete activeKey))
     else io_return ())))))))))"

definition getAccountInfo :: "AccountKeyParams \<Rightarrow> (store, jsval option) io" where
  "getAccountInfo params =
     io_bind (io_lift (createAccountKey Metadata params)) (\<lambda>key. store_get key)"

definition setAccountInfo :: "AccountKeyParams \<Rightarrow> AccountInfo \<Rightarrow> (store, unit) io" where
  "setAccountInfo params info =
     io_bind (io_lift (createAccountKey Metadata params)) (\<lambda>key. store_set key (JInfo info))"

definition getToken :: "AccountKeyParams \<Rightarrow> (store, jsval option) io" where
  "getToken params =
     io_bind (io_lift (createAccountKey Token params)) (\<lambda>key. store_get key)"

definition setToken :: "AccountKeyParams \<Rightarrow> string \<Rightarrow> (store, unit) io" where
  "setToken params token =
     io_bind (io_lift (createAccountKey Token params)) (\<lambda>key. store_set key (JToken token))"

section \<open>key-utils.ts: enumeration\<close>

text \<open>\<open>listAccountIds\<close>. What \<open>store.iterator?.(undefined)\<close> gives: \<open>None\<close> when the
  store has no \<open>iterator\<close> method, otherwise the run of the \<open>for await\<close> loop, which
  yields keys and either finishes or raises. A raise on the call itself is \<open>Raise\<close> as
  the first step.\<close>

datatype iteration = Done | Yield string iteration | Raise error

text \<open>The loop body with the accumulator \<open>accountIds\<close>; the \<open>catch\<close> clause returns
  \<open>accountIds\<close>.\<close>

fun collect_ids :: "string \<Rightarrow> iteration \<Rightarrow> string list \<Rightarrow> string list" where
  "collect_ids svc Done accountIds = accountIds"
| "collect_ids svc (Yield key rest) accountIds =
     collect_ids svc rest
       (case parseTokenKey key of
          Some parsed \<Rightarrow>
            if service parsed = svc then accountIds @ [accountId parsed] else accountIds
        | None \<Rightarrow> accountIds)"
| "collect_ids svc (Raise e) accountIds = accountIds"

definition listAccountIds :: "iteration option \<Rightarrow> string \<Rightarrow> string list" where
  "listAccountIds iterator svc =
     (case iterator of
        None \<Rightarrow> []
      | Some it \<Rightarrow> collect_ids svc it [])"

text \<open>An iteration that yields the given keys and finishes.\<close>

fun yield_all :: "string list \<Rightarrow> iteration" where
  "yield_all [] = Done"
| "yield_all (k # ks) = Yield k (yield_all ks)"

section \<open>Sequences of directory calls\<close>

datatype directory_call =
    AddAccount AccountKeyParams
  | RemoveAccount AccountKeyParams
  | SetActiveAccount string "string option"

fun perform :: "directory_call \<Rightarrow> (store, unit) io" where
  "perform (AddAccount params) = addAccount params"
| "perform (RemoveAccount params) = removeAccount params"
| "perform (SetActiveAccount svc acct) = setActiveAccount svc acct"

text \<open>A caller makes the calls one after the other on the same store; a call that throws
  leaves the store as it is at the throw.\<close>

fun run_calls :: "directory_call list \<Rightarrow> store \<Rightarrow> store" where
  "run_calls [] st = st"
| "run_calls (c # cs) st = run_calls cs (snd (perform c st))"

text \<open>The invariant of the directory: a pointer that \<open>getActiveAccount\<close> returns is a
  string and a member of the list \<open>getLinkedAccounts\<close> returns for the same service.\<close>

definition active_is_linked :: "store \<Rightarrow> bool" where
  "active_is_linked st =
     (\<forall>svc v. fst (getActiveAccount svc st) = Inr (Some v) \<longrightarrow>
        (\<exists>a xs. v = JStr a \<and> fst (getLinkedAccounts svc st) = Inr (JArr xs) \<and> a \<in> set xs))"

text \<open>The documented precondition of \<open>setActiveAccount\<close>: the account is linked for the
  service (or the call deactivates, or it throws on an invalid service).\<close>

fun respects_precondition :: "directory_call \<Rightarrow> store \<Rightarrow> bool" where
  "respects_precondition (AddAccount params) st = True"
| "respects_precondition (RemoveAccount params) st = True"
| "respects_precondition (SetActiveAccount svc None) st = True"
| "respects_precondition (SetActiveAccount svc (Some a)) st =
     (case fst (getLinkedAccounts svc st) of
        Inr (JArr xs) \<Rightarrow> a \<in> set xs
      | Inr _ \<Rightarrow> False
      | Inl e \<Rightarrow> True)"

fun all_respect_precondition :: "directory_call list \<Rightarrow> store \<Rightarrow> bool" where
  "all_respect_precondition [] st = True"
| "all_respect_precondition (c # cs) st =
     (respects_precondition c st \<and> all_respect_precondition cs (snd (perform c st)))"

section \<open>lib/account-server/shared-utils.ts\<close>

text \<open>\<open>info?.alias\<close> and \<open>existingInfo?.addedAt\<close> on the result of \<open>getAccountInfo\<close>.\<close>

fun info_alias :: "jsval option \<Rightarrow> string option" where
  "info_alias (Some (JInfo i)) = alias i"
| "info_alias _ = None"

fun info_addedAt :: "jsval option \<Rightarrow> string option" where
  "info_addedAt (Some (JInfo i)) = Some (addedAt i)"
| "info_addedAt _ = None"

text \<open>The \<open>for\<close> loop of \<open>findAccountByEmailOrAlias\<close> over the linked identifiers.\<close>

fun alias_scan :: "string \<Rightarrow> string \<Rightarrow> string list \<Rightarrow> (store, string option) io" where
  "alias_scan svc emailOrAlias [] = io_return None"
| "alias_scan svc emailOrAlias (a # rest) =
     io_bind (getAccountInfo \<lparr>accountId = a, service = svc\<rparr>) (\<lambda>info.
     if info_alias info = Some emailOrAlias then io_return (Some a)
     else alias_scan svc emailOrAlias rest)"

definition findAccountByEmailOrAlias :: "string \<Rightarrow> string \<Rightarrow> (store, string option) io" where
  "findAccountByEmailOrAlias svc emailOrAlias =
     io_bind (getLinkedAccounts svc) (\<lambda>linked.
     io_bind (as_array linked) (\<lambda>linkedAccountIds.
     if emailOrAlias \<in> set linkedAccountIds then io_return (Some emailOrAlias)
     else alias_scan svc emailOrAlias linkedAccountIds))"

text \<open>
  The resolution rule in the words of the specification (section 4.4, step 2), to be
  compared with \<open>findAccountByEmailOrAlias\<close>: an exact match on the account identifier,
  else the first linked account, in list order, whose metadata record (stored under
  \<open><accountId>:<service>:metadata\<close>) has the reference as its alias.
\<close>

definition spec_resolve_reference :: "store \<Rightarrow> string \<Rightarrow> string list \<Rightarrow> string \<Rightarrow> string option" where
  "spec_resolve_reference st svc linked reference =
     (if reference \<in> set linked then Some reference
      else List.find (\<lambda>a. info_alias (st (a @ '':'' @ svc @ '':metadata'')) = Some reference) linked)"

section \<open>lib/account-server/loopback.ts\<close>

text \<open>
  The handlers run against the store and the authentication provider. The state of a
  handler is the store together with the log of the arguments \<open>auth.getAccessToken\<close> was
  called with. The provider is a parameter: given the account hint it acts on the store
  and returns a token or rejects. Calls of the logger have no effect on the store or on
  the result and are left out.
\<close>

record world =
  kv :: store
  oauth_log :: "string list"

definition in_store :: "(store, 'a) io \<Rightarrow> (world, 'a) io" where
  "in_store m w = (case m (kv w) of (r, st') \<Rightarrow> (r, w\<lparr>kv := st'\<rparr>))"

definition call_getAccessToken ::
  "(string \<Rightarrow> (store, string) io) \<Rightarrow> string \<Rightarrow> (world, string) io" where
  "call_getAccessToken auth hint w =
     (case auth hint (kv w) of
        (r, st') \<Rightarrow> (r, \<lparr>kv = st', oauth_log = oauth_log w @ [hint]\<rparr>))"

text \<open>\<open>try { ... } catch (error) { throw new McpError(InternalError, prefix + message) }\<close>\<close>

definition catch_mcp :: "string \<Rightarrow> ('s, 'a) io \<Rightarrow> ('s, 'a) io" where
  "catch_mcp prefix m st =
     (case m st of
        (Inl e, st') \<Rightarrow> (Inl (McpError prefix e), st')
      | (Inr x, st') \<Rightarrow> (Inr x, st'))"

text \<open>Truthiness of an optional string argument (\<open>params.email\<close>, \<open>params.alias\<close>) and
  of the \<open>string | null\<close> result of \<open>findAccountByEmailOrAlias\<close>.\<close>

fun str_truthy :: "string option \<Rightarrow> bool" where
  "str_truthy None = False"
| "str_truthy (Some s) = (s \<noteq> [])"

record switch_params =
  p_email :: "string option"
  p_alias :: "string option"

text \<open>The structured result of account-switch (the \<open>message\<close> text is not kept).\<close>

record switch_result =
  r_email :: string
  isNew :: bool
  totalAccounts :: nat

text \<open>The branch \<open>if (accountId) { ... return }\<close>: the account is already linked.\<close>

definition switch_reuse ::
  "string \<Rightarrow> string \<Rightarrow> switch_params \<Rightarrow> jsval \<Rightarrow> string \<Rightarrow> (world, switch_result) io" where
  "switch_reuse svc now params existingAccounts em =
     io_bind (in_store (setActiveAccount svc (Some em))) (\<lambda>_.
     io_bind (if str_truthy (p_alias params)
              then io_bind (in_store (getAccountInfo \<lparr>accountId = em, service = svc\<rparr>)) (\<lambda>existingInfo.
                   in_store (setAccountInfo \<lparr>accountId = em, service = svc\<rparr>
                     \<lparr>email = em, alias = p_alias params,
                      addedAt = (case info_addedAt existingInfo of Some t \<Rightarrow> t | None \<Rightarrow> now),
                      lastUsed = None, metadata = None\<rparr>))
              else io_return ()) (\<lambda>_.
     io_bind (as_array existingAccounts) (\<lambda>xs.
     io_return \<lparr>r_email = em, isNew = False, totalAccounts = length xs\<rparr>)))"

text \<open>From \<open>auth.getAccessToken\<close> on: the OAuth flow. \<open>uuid\<close> is the value of
  \<open>randomUUID()\<close>, \<open>now\<close> the value of \<open>new Date().toISOString()\<close>. A pointer that is
  truthy but not a string is outside the declared type \<open>string | undefined\<close>; the model
  stops there with the error \<open>validateKeyParams\<close> has for a non-string.\<close>

definition switch_oauth ::
  "string \<Rightarrow> (string \<Rightarrow> (store, string) io) \<Rightarrow> string \<Rightarrow> string \<Rightarrow> switch_params \<Rightarrow> jsval
     \<Rightarrow> (world, switch_result) io" where
  "switch_oauth svc auth uuid now params existingAccounts =
     io_bind (call_getAccessToken auth (''new:'' @ uuid)) (\<lambda>_.
     io_bind (in_store (getActiveAccount svc)) (\<lambda>active.
     if \<not> truthy active then io_throw OAuthNoActiveAccount
     else (case active of
             Some (JStr em) \<Rightarrow>
               io_bind (as_array existingAccounts) (\<lambda>xs.
               let new = (em \<notin> set xs) in
               io_bind (if new then in_store (addAccount \<lparr>accountId = em, service = svc\<rparr>)
                        else io_return ()) (\<lambda>_.
               io_bind (in_store (getAccountInfo \<lparr>accountId = em, service = svc\<rparr>)) (\<lambda>existingInfo.
               io_bind (in_store (setAccountInfo \<lparr>accountId = em, service = svc\<rparr>
                          \<lparr>email = em,
                           alias = (if str_truthy (p_alias params) then p_alias params else None),
                           addedAt = (if new then now
                                      else (case info_addedAt existingInfo of
                                              Some t \<Rightarrow> t
                                            | None \<Rightarrow> now)),
                           lastUsed = None, metadata = None\<rparr>)) (\<lambda>_.
               io_bind (in_store (setActiveAccount svc (Some em))) (\<lambda>_.
               io_return \<lparr>r_email = em, isNew = new,
                          totalAccounts = (if new then length xs + 1 else length xs)\<rparr>)))))
           | _ \<Rightarrow> io_throw InvalidKeyParameter)))"

definition account_switch ::
  "string \<Rightarrow> (string \<Rightarrow> (store, string) io) \<Rightarrow> string \<Rightarrow> string \<Rightarrow> switch_params
     \<Rightarrow> (world, switch_result) io" where
  "account_switch svc auth uuid now params =
     catch_mcp (''Error switching '' @ svc @ '' account: '')
       (io_bind (in_store (getLinkedAccounts svc)) (\<lambda>existingAccounts.
        io_bind (case p_email params of
                   Some em \<Rightarrow>
                     if em \<noteq> [] then in_store (findAccountByEmailOrAlias svc em)
                     else io_return None
                 | None \<Rightarrow> io_return None) (\<lambda>found.
        case found of
          Some a \<Rightarrow>
            if a \<noteq> [] then switch_reuse svc now params existingAccounts a
            else switch_oauth svc auth uuid now params existingAccounts
        | None \<Rightarrow> switch_oauth svc auth uuid now params existingAccounts)))"

record remove_result =
  removed :: string
  remainingAccounts :: nat
  newActiveAccount :: "string option"

definition account_remove :: "string \<Rightarrow> string \<Rightarrow> (store, remove_result) io" where
  "account_remove svc reference =
     catch_mcp (''Error removing '' @ svc @ '' account: '')
       (io_bind (getLinkedAccounts svc) (\<lambda>linkedAccounts.
        if linkedAccounts = JArr [] then io_throw (NoAccountsToRemove svc)
        else
        io_bind (findAccountByEmailOrAlias svc reference) (\<lambda>found.
        case found of
          None \<Rightarrow> io_throw (AccountNotFound reference)
        | Some a \<Rightarrow>
            if a = [] then io_throw (AccountNotFound reference)
            else
            io_bind (getActiveAccount svc) (\<lambda>activeAccount.
            let removingActive = (activeAccount = Some (JStr a)) in
            io_bind (removeAccount \<lparr>accountId = a, service = svc\<rparr>) (\<lambda>_.
            io_bind (as_array linkedAccounts) (\<lambda>xs.
            let remaining = filter (\<lambda>id. id \<noteq> a) xs in
            io_bind (if removingActive \<and> remaining \<noteq> []
                     then (case remaining of
                             firstRemaining # _ \<Rightarrow>
                               if firstRemaining \<noteq> []
                               then io_bind (setActiveAccount svc (Some firstRemaining)) (\<lambda>_.
                                    io_return (Some firstRemaining))
                               else io_return None
                           | [] \<Rightarrow> io_return None)
                     else io_return None) (\<lambda>newActive.
            io_return \<lparr>removed = a, remainingAccounts = length remaining,
                       newActiveAccount = newActive\<rparr>)))))))"

section \<open>Facts about the key codec\<close>

lemma split_not_Nil: "split d s \<noteq> []"
  by (induction s) (auto split: list.splits)

lemma split_no_delim: "d \<notin> set s \<Longrightarrow> split d s = [s]"
  by (induction s) auto

lemma split_append_delim: "d \<notin> set a \<Longrightarrow> split d (a @ d # r) = a # split d r"
  by (induction a) auto

lemma validateKeyParams_ok:
  "validateKeyParams vs = Inr () \<longleftrightarrow> (\<forall>v \<in> set vs. \<not> has_colon v)"
  by (induction vs) auto

lemma colon_notin_token: "CHR '':'' \<notin> set ''token''"
  by simp

text \<open>
  C7, as amended. For every non-empty \<open>accountId\<close> and non-empty \<open>service\<close> without a
  colon, \<open>createAccountKey\<close> succeeds for the token kind and \<open>parseTokenKey\<close> gives back
  exactly the two identifiers.
\<close>

theorem token_key_roundtrip:
  assumes "\<not> has_colon a" and "\<not> has_colon s" and "a \<noteq> []" and "s \<noteq> []"
  shows "\<exists>k. createAccountKey Token \<lparr>accountId = a, service = s\<rparr> = Inr k
             \<and> parseTokenKey k = Some \<lparr>accountId = a, service = s\<rparr>"
proof -
  have ca: "CHR '':'' \<notin> set a" and cs: "CHR '':'' \<notin> set s"
    using assms by (simp_all add: has_colon_def)
  have key: "createAccountKey Token \<lparr>accountId = a, service = s\<rparr>
               = Inr (a @ '':'' @ s @ '':'' @ ''token'')"
    using assms by (simp add: createAccountKey_def)
  have "split CHR '':'' (a @ CHR '':'' # (s @ CHR '':'' # ''token'')) = a # split CHR '':'' (s @ CHR '':'' # ''token'')"
    using ca by (rule split_append_delim)
  also have "split CHR '':'' (s @ CHR '':'' # ''token'') = s # split CHR '':'' ''token''"
    using cs by (rule split_append_delim)
  also have "split CHR '':'' ''token'' = [''token'']"
    by (rule split_no_delim) simp
  finally have "split CHR '':'' (a @ '':'' @ s @ '':'' @ ''token'') = [a, s, ''token'']"
    by simp
  then have "parseTokenKey (a @ '':'' @ s @ '':'' @ ''token'') = Some \<lparr>accountId = a, service = s\<rparr>"
    using assms by (simp add: parseTokenKey_def)
  with key show ?thesis by blast
qed

theorem token_key_roundtrip_witness:
  "\<exists>k. createAccountKey Token \<lparr>accountId = ''a@x.com'', service = ''gmail''\<rparr> = Inr k
       \<and> parseTokenKey k = Some \<lparr>accountId = ''a@x.com'', service = ''gmail''\<rparr>"
  using token_key_roundtrip [of "''a@x.com''" "''gmail''"]
  by (simp add: has_colon_def)

text \<open>
  C7 as stated fails: the empty account identifier contains no colon, the key
  \<open>":gmail:token"\<close> is created, and \<open>parseTokenKey\<close> rejects it because of its
  \<open>!parts[0]\<close> guard.
\<close>

theorem token_key_roundtrip_empty_counterexample:
  "createAccountKey Token \<lparr>accountId = '''', service = ''gmail''\<rparr> = Inr '':gmail:token''
   \<and> \<not> has_colon '''' \<and> \<not> has_colon ''gmail''
   \<and> parseTokenKey '':gmail:token'' = None"
  by (simp add: createAccountKey_def parseTokenKey_def has_colon_def)

section \<open>Facts about the account directory\<close>

lemma createServiceKey_eq:
  "createServiceKey t svc = (if has_colon svc then Inl InvalidKeyParameter else Inr (svc @ '':'' @ service_type_str t))"
  by (simp add: createServiceKey_def)

lemma createAccountKey_eq:
  "createAccountKey t p = (if has_colon (accountId p) \<or> has_colon (service p) then Inl InvalidKeyParameter
      else Inr (accountId p @ '':'' @ service p @ '':'' @ account_type_str t))"
  by (simp add: createAccountKey_def)

lemmas io_defs = io_bind_def io_return_def io_throw_def io_lift_def store_get_def store_set_def store_delete_def

lemma getActiveAccount_eq:
  "getActiveAccount svc st = (if has_colon svc then (Inl InvalidKeyParameter, st) else (Inr (st (svc @ '':active'')), st))"
  by (simp add: getActiveAccount_def io_defs createServiceKey_eq)

lemma getLinkedAccounts_eq:
  "getLinkedAccounts svc st = (if has_colon svc then (Inl InvalidKeyParameter, st) else (Inr (or_empty_array (st (svc @ '':linked''))), st))"
  by (simp add: getLinkedAccounts_def io_defs createServiceKey_eq)

lemma setActiveAccount_eq:
  "setActiveAccount svc acct st = (if has_colon svc then (Inl InvalidKeyParameter, st) else
      (Inr (), (case acct of None \<Rightarrow> st(svc @ '':active'' := None) | Some a \<Rightarrow> st(svc @ '':active'' \<mapsto> JStr a))))"
  by (simp add: setActiveAccount_def io_defs createServiceKey_eq split: option.splits)

lemma as_array_eq:
  "as_array v st = (case v of JArr xs \<Rightarrow> (Inr xs, st) | _ \<Rightarrow> (Inl TypeError, st))"
  by (cases v) (simp_all add: io_defs)

lemma last_neq_imp_neq: "last xs \<noteq> last ys \<Longrightarrow> xs \<noteq> ys"
  by auto

lemma key_neq [simp]:
  "s @ '':active'' \<noteq> s' @ '':linked''"
  "s @ '':linked'' \<noteq> s' @ '':active''"
  "a @ '':'' @ s @ '':token'' \<noteq> s' @ '':active''"
  "a @ '':'' @ s @ '':token'' \<noteq> s' @ '':linked''"
  "a @ '':'' @ s @ '':metadata'' \<noteq> s' @ '':active''"
  "a @ '':'' @ s @ '':metadata'' \<noteq> s' @ '':linked''"
  "a @ '':'' @ s @ '':metadata'' \<noteq> a' @ '':'' @ s' @ '':token''"
  by (rule last_neq_imp_neq, simp)+

lemma addAccount_eq:
  "addAccount p st =
    (if has_colon (service p) then (Inl InvalidKeyParameter, st)
     else case or_empty_array (st (service p @ '':linked'')) of
       JArr xs \<Rightarrow>
         (let st1 = (if accountId p \<in> set xs then st else st(service p @ '':linked'' \<mapsto> JArr (xs @ [accountId p])))
          in (Inr (), if truthy (st (service p @ '':active'')) then st1 else st1(service p @ '':active'' \<mapsto> JStr (accountId p))))
     | _ \<Rightarrow> (Inl TypeError, st))"
  by (auto simp add: addAccount_def io_bind_def getLinkedAccounts_eq getActiveAccount_eq setActiveAccount_eq as_array_eq
      io_return_def io_lift_def store_set_def createServiceKey_eq Let_def split: jsval.splits)


lemma removeAccount_eq:
  "removeAccount p st =
    (if has_colon (accountId p) \<or> has_colon (service p) then (Inl InvalidKeyParameter, st)
     else let st2 = st(accountId p @ '':'' @ service p @ '':token'' := None,
                       accountId p @ '':'' @ service p @ '':metadata'' := None)
      in case or_empty_array (st (service p @ '':linked'')) of
       JArr xs \<Rightarrow>
         (let filtered = filter (\<lambda>id. id \<noteq> accountId p) xs;
              st3 = st2(service p @ '':linked'' \<mapsto> JArr filtered)
          in (Inr (),
              if st (service p @ '':active'') = Some (JStr (accountId p))
              then (case filtered of
                      newActive # _ \<Rightarrow> if newActive \<noteq> [] then st3(service p @ '':active'' \<mapsto> JStr newActive)
                                       else st3(service p @ '':active'' := None)
                    | [] \<Rightarrow> st3(service p @ '':active'' := None))
              else st3))
     | _ \<Rightarrow> (Inl TypeError, st2))"
  by (auto simp add: removeAccount_def io_bind_def getLinkedAccounts_eq getActiveAccount_eq setActiveAccount_eq as_array_eq
      io_return_def io_lift_def store_set_def store_delete_def createServiceKey_eq createAccountKey_eq Let_def split: jsval.splits list.splits)

lemma active_is_linked_raw:
  "active_is_linked st \<longleftrightarrow>
     (\<forall>svc v. \<not> has_colon svc \<longrightarrow> st (svc @ '':active'') = Some v \<longrightarrow>
        (\<exists>a xs. v = JStr a \<and> or_empty_array (st (svc @ '':linked'')) = JArr xs \<and> a \<in> set xs))"
  unfolding active_is_linked_def
  by (auto simp add: getActiveAccount_eq getLinkedAccounts_eq)


lemma or_empty_array_JArr [simp]: "or_empty_array (Some (JArr xs)) = JArr xs"
  by (simp add: or_empty_array_def)

lemma active_is_linkedD:
  "active_is_linked st \<Longrightarrow> \<not> has_colon svc \<Longrightarrow> st (svc @ '':active'') = Some v \<Longrightarrow>
     \<exists>a xs. v = JStr a \<and> or_empty_array (st (svc @ '':linked'')) = JArr xs \<and> a \<in> set xs"
  by (simp add: active_is_linked_raw)

lemma addAccount_preserves:
  assumes "active_is_linked st"
  shows "active_is_linked (snd (addAccount p st))"
proof (cases "has_colon (service p)")
  case True
  then show ?thesis using assms by (simp add: addAccount_eq)
next
  case valid: False
  show ?thesis
  proof (cases "or_empty_array (st (service p @ '':linked''))")
    case (JArr xs)
    have own: "\<exists>a. v = JStr a \<and> a \<in> set xs" if "st (service p @ '':active'') = Some v" for v
      using active_is_linkedD [OF assms valid that] JArr by auto
    show ?thesis
      unfolding active_is_linked_raw
    proof (intro allI impI)
      fix svc v
      assume svc: "\<not> has_colon svc" and v: "snd (addAccount p st) (svc @ '':active'') = Some v"
      show "\<exists>a ys. v = JStr a \<and> or_empty_array (snd (addAccount p st) (svc @ '':linked'')) = JArr ys \<and> a \<in> set ys"
      proof (cases "svc = service p")
        case False
        then have "st (svc @ '':active'') = Some v"
          using v valid JArr by (auto simp add: addAccount_eq Let_def split: if_splits)
        from active_is_linkedD [OF assms svc this] False
        show ?thesis
          using valid JArr by (auto simp add: addAccount_eq Let_def)
      next
        case True
        then show ?thesis
          using own v valid JArr
          by (auto simp add: addAccount_eq Let_def split: if_splits)
      qed
    qed
  qed (use assms valid in \<open>simp_all add: addAccount_eq\<close>)
qed

lemma filter_hd_in: "filter P xs = y # ys \<Longrightarrow> y \<in> set xs \<and> P y"
proof -
  assume h: "filter P xs = y # ys"
  have "y \<in> set (filter P xs)" by (simp add: h)
  then show ?thesis by simp
qed

lemma active_is_linked_cong:
  assumes "\<And>svc. st' (svc @ '':active'') = st (svc @ '':active'')"
    and "\<And>svc. st' (svc @ '':linked'') = st (svc @ '':linked'')"
    and "active_is_linked st"
  shows "active_is_linked st'"
  using assms by (simp add: active_is_linked_raw)

lemma removeAccount_preserves:
  assumes "active_is_linked st"
  shows "active_is_linked (snd (removeAccount p st))"
proof (cases "has_colon (accountId p) \<or> has_colon (service p)")
  case True
  then show ?thesis using assms by (simp add: removeAccount_eq)
next
  case False
  then have valid: "\<not> has_colon (service p)" and valid_a: "\<not> has_colon (accountId p)" by simp_all
  show ?thesis
  proof (cases "\<exists>xs. or_empty_array (st (service p @ '':linked'')) = JArr xs")
    case True
    then obtain xs where JArr: "or_empty_array (st (service p @ '':linked'')) = JArr xs" ..
    have own: "\<exists>a. v = JStr a \<and> a \<in> set xs" if "st (service p @ '':active'') = Some v" for v
      using active_is_linkedD [OF assms valid that] JArr by auto
    show ?thesis
      unfolding active_is_linked_raw
    proof (intro allI impI)
      fix svc v
      assume svc: "\<not> has_colon svc" and v: "snd (removeAccount p st) (svc @ '':active'') = Some v"
      show "\<exists>a ys. v = JStr a \<and> or_empty_array (snd (removeAccount p st) (svc @ '':linked'')) = JArr ys \<and> a \<in> set ys"
      proof (cases "svc = service p")
        case False
        then have "st (svc @ '':active'') = Some v"
          using v valid valid_a JArr by (auto simp add: removeAccount_eq Let_def split: if_splits list.splits)
        from active_is_linkedD [OF assms svc this] False
        show ?thesis
          using valid valid_a JArr by (auto simp add: removeAccount_eq Let_def split: list.splits)
      next
        case True
        then show ?thesis
          using own v valid valid_a JArr
          by (auto simp add: removeAccount_eq Let_def split: if_splits list.splits dest: filter_hd_in)
      qed
    qed
  next
    case False
    then have "snd (removeAccount p st) =
                 st(accountId p @ '':'' @ service p @ '':token'' := None,
                    accountId p @ '':'' @ service p @ '':metadata'' := None)"
      using valid valid_a
      by (cases "or_empty_array (st (service p @ '':linked''))") (simp_all add: removeAccount_eq Let_def)
    then have "snd (removeAccount p st) (svc @ '':active'') = st (svc @ '':active'')"
      and "snd (removeAccount p st) (svc @ '':linked'') = st (svc @ '':linked'')" for svc
      by simp_all
    then show ?thesis
      using assms by (rule active_is_linked_cong)
  qed
qed

lemma setActiveAccount_preserves:
  assumes "active_is_linked st" and "respects_precondition (SetActiveAccount svc acct) st"
  shows "active_is_linked (snd (setActiveAccount svc acct st))"
proof (cases "has_colon svc")
  case True
  then show ?thesis using assms by (simp add: setActiveAccount_eq)
next
  case valid: False
  show ?thesis
    unfolding active_is_linked_raw
  proof (intro allI impI)
    fix svc' v
    assume svc': "\<not> has_colon svc'"
      and v: "snd (setActiveAccount svc acct st) (svc' @ '':active'') = Some v"
    show "\<exists>a ys. v = JStr a \<and> or_empty_array (snd (setActiveAccount svc acct st) (svc' @ '':linked'')) = JArr ys \<and> a \<in> set ys"
    proof (cases "svc' = svc")
      case False
      then have "st (svc' @ '':active'') = Some v"
        using v valid by (auto simp add: setActiveAccount_eq split: option.splits)
      from active_is_linkedD [OF assms(1) svc' this]
      show ?thesis
        using valid by (auto simp add: setActiveAccount_eq split: option.splits)
    next
      case True
      then show ?thesis
        using v valid assms(2)
        by (cases acct) (auto simp add: setActiveAccount_eq getLinkedAccounts_eq split: jsval.splits)
    qed
  qed
qed

lemma perform_preserves:
  "active_is_linked st \<Longrightarrow> respects_precondition c st \<Longrightarrow> active_is_linked (snd (perform c st))"
  by (cases c) (simp_all add: addAccount_preserves removeAccount_preserves setActiveAccount_preserves)

text \<open>
  C1, as amended. Start from a store in which every readable active-account pointer is a
  member of its service's linked-accounts list (the empty store is one). After any finite
  sequence of \<open>addAccount\<close>, \<open>removeAccount\<close> and \<open>setActiveAccount\<close> calls in which
  each \<open>setActiveAccount\<close> deactivates or names an account that is linked for the service
  at the time of the call, every readable pointer is again a member of its service's list.
  \<open>addAccount\<close> and \<open>removeAccount\<close> take arbitrary arguments.
\<close>

theorem active_pointer_stays_linked:
  assumes "active_is_linked st" and "all_respect_precondition cs st"
  shows "active_is_linked (run_calls cs st)"
  using assms
proof (induction cs arbitrary: st)
  case Nil
  then show ?case by simp
next
  case (Cons c cs)
  then show ?case by (simp add: perform_preserves)
qed

lemma empty_store_invariant: "active_is_linked (\<lambda>k. None)"
  by (simp add: active_is_linked_raw)

theorem active_pointer_stays_linked_witness:
  "active_is_linked (\<lambda>k. None)
   \<and> all_respect_precondition
        [AddAccount \<lparr>accountId = ''a@x.com'', service = ''gmail''\<rparr>,
         AddAccount \<lparr>accountId = ''b@x.com'', service = ''gmail''\<rparr>,
         SetActiveAccount ''gmail'' (Some ''b@x.com''),
         RemoveAccount \<lparr>accountId = ''b@x.com'', service = ''gmail''\<rparr>] (\<lambda>k. None)
   \<and> active_is_linked (run_calls
        [AddAccount \<lparr>accountId = ''a@x.com'', service = ''gmail''\<rparr>,
         AddAccount \<lparr>accountId = ''b@x.com'', service = ''gmail''\<rparr>,
         SetActiveAccount ''gmail'' (Some ''b@x.com''),
         RemoveAccount \<lparr>accountId = ''b@x.com'', service = ''gmail''\<rparr>] (\<lambda>k. None))"
proof -
  have pre: "all_respect_precondition
        [AddAccount \<lparr>accountId = ''a@x.com'', service = ''gmail''\<rparr>,
         AddAccount \<lparr>accountId = ''b@x.com'', service = ''gmail''\<rparr>,
         SetActiveAccount ''gmail'' (Some ''b@x.com''),
         RemoveAccount \<lparr>accountId = ''b@x.com'', service = ''gmail''\<rparr>] (\<lambda>k. None)"
    by (simp add: addAccount_eq getLinkedAccounts_eq setActiveAccount_eq has_colon_def or_empty_array_def)
  show ?thesis
    using active_pointer_stays_linked [OF empty_store_invariant pre] empty_store_invariant pre
    by simp
qed

text \<open>
  C1 as stated fails: \<open>setActiveAccount\<close> writes the pointer without looking at the
  linked-accounts list. On the empty store, one call with valid arguments leaves a
  readable pointer and an empty list.
\<close>

theorem unchecked_setActiveAccount_counterexample:
  "active_is_linked (\<lambda>k. None)
   \<and> \<not> has_colon ''gmail'' \<and> \<not> has_colon ''a@x.com''
   \<and> fst (getActiveAccount ''gmail''
        (run_calls [SetActiveAccount ''gmail'' (Some ''a@x.com'')] (\<lambda>k. None))) = Inr (Some (JStr ''a@x.com''))
   \<and> fst (getLinkedAccounts ''gmail''
        (run_calls [SetActiveAccount ''gmail'' (Some ''a@x.com'')] (\<lambda>k. None))) = Inr (JArr [])
   \<and> \<not> active_is_linked (run_calls [SetActiveAccount ''gmail'' (Some ''a@x.com'')] (\<lambda>k. None))"
proof -
  let ?st = "run_calls [SetActiveAccount ''gmail'' (Some ''a@x.com'')] (\<lambda>k. None)"
  have a: "fst (getActiveAccount ''gmail'' ?st) = Inr (Some (JStr ''a@x.com''))"
    by (simp add: getActiveAccount_eq setActiveAccount_eq has_colon_def)
  have l: "fst (getLinkedAccounts ''gmail'' ?st) = Inr (JArr [])"
    by (simp add: getLinkedAccounts_eq setActiveAccount_eq has_colon_def or_empty_array_def)
  have "\<not> active_is_linked ?st"
  proof
    assume "active_is_linked ?st"
    then have "\<exists>a xs. JStr ''a@x.com'' = JStr a \<and> fst (getLinkedAccounts ''gmail'' ?st) = Inr (JArr xs) \<and> a \<in> set xs"
      using a unfolding active_is_linked_def by blast
    then show False using l by auto
  qed
  with a l show ?thesis
    by (simp add: empty_store_invariant has_colon_def)
qed

text \<open>The scenario of the specification: add \<open>a@x.com\<close>, add \<open>b@x.com\<close>, remove
  \<open>a@x.com\<close>, on the empty store.\<close>

lemma scenario_gmail:
  "run_calls [AddAccount \<lparr>accountId = ''a@x.com'', service = ''gmail''\<rparr>] (\<lambda>k. None)
     = (\<lambda>k. None)(''gmail:linked'' \<mapsto> JArr [''a@x.com''], ''gmail:active'' \<mapsto> JStr ''a@x.com'')"
  "run_calls [AddAccount \<lparr>accountId = ''a@x.com'', service = ''gmail''\<rparr>,
              AddAccount \<lparr>accountId = ''b@x.com'', service = ''gmail''\<rparr>] (\<lambda>k. None)
     = (\<lambda>k. None)(''gmail:linked'' \<mapsto> JArr [''a@x.com'', ''b@x.com''], ''gmail:active'' \<mapsto> JStr ''a@x.com'')"
  "run_calls [AddAccount \<lparr>accountId = ''a@x.com'', service = ''gmail''\<rparr>,
              AddAccount \<lparr>accountId = ''b@x.com'', service = ''gmail''\<rparr>,
              RemoveAccount \<lparr>accountId = ''a@x.com'', service = ''gmail''\<rparr>] (\<lambda>k. None)
     = (\<lambda>k. None)(''gmail:linked'' \<mapsto> JArr [''b@x.com''], ''gmail:active'' \<mapsto> JStr ''b@x.com'')"
  by (simp_all add: addAccount_eq removeAccount_eq has_colon_def or_empty_array_def fun_eq_iff)

lemma fun_upd_same_val: "st k = Some v \<Longrightarrow> st(k \<mapsto> v) = st"
  by auto

lemma count_list_distinct: "distinct xs \<Longrightarrow> x \<in> set xs \<Longrightarrow> count_list xs x = 1"
  by (induction xs) auto

text \<open>
  C5. In a directory state (the linked-accounts list of the service is readable and has
  no duplicates), \<open>addAccount\<close> with the same arguments twice: the first call succeeds,
  the second call succeeds and returns the very same store (no stored record changes),
  and the list then holds the account exactly once, at the position the first call left
  it at (the old position if it was linked, the end otherwise).
\<close>

theorem addAccount_idempotent:
  assumes linked: "fst (getLinkedAccounts svc st) = Inr (JArr xs)" and nodup: "distinct xs"
  shows "\<exists>st1 ys. addAccount \<lparr>accountId = a, service = svc\<rparr> st = (Inr (), st1)
           \<and> addAccount \<lparr>accountId = a, service = svc\<rparr> st1 = (Inr (), st1)
           \<and> fst (getLinkedAccounts svc st1) = Inr (JArr ys)
           \<and> ys = (if a \<in> set xs then xs else xs @ [a])
           \<and> count_list ys a = 1 \<and> distinct ys"
proof -
  have valid: "\<not> has_colon svc"
    using linked by (auto simp add: getLinkedAccounts_eq split: if_splits)
  then have arr: "or_empty_array (st (svc @ '':linked'')) = JArr xs"
    using linked by (simp add: getLinkedAccounts_eq)
  define ys where "ys = (if a \<in> set xs then xs else xs @ [a])"
  define st0 where "st0 = (if a \<in> set xs then st else st(svc @ '':linked'' \<mapsto> JArr (xs @ [a])))"
  define st1 where "st1 = (if truthy (st (svc @ '':active'')) then st0 else st0(svc @ '':active'' \<mapsto> JStr a))"
  have first: "addAccount \<lparr>accountId = a, service = svc\<rparr> st = (Inr (), st1)"
    using valid arr by (simp add: addAccount_eq st1_def st0_def Let_def)
  have arr1: "or_empty_array (st1 (svc @ '':linked'')) = JArr ys"
    using arr by (simp add: st1_def st0_def ys_def)
  have mem: "a \<in> set ys" by (simp add: ys_def)
  have st0a: "st0 (svc @ '':active'') = st (svc @ '':active'')"
    by (simp add: st0_def)
  have act: "\<not> truthy (st1 (svc @ '':active'')) \<Longrightarrow> st1 (svc @ '':active'') = Some (JStr a)"
    by (simp add: st1_def st0a split: if_splits)
  have second: "addAccount \<lparr>accountId = a, service = svc\<rparr> st1 = (Inr (), st1)"
    using valid arr1 mem act by (auto simp add: addAccount_eq Let_def fun_upd_same_val)
  have d: "distinct ys" using nodup by (simp add: ys_def)
  have c: "count_list ys a = 1"
    using d mem by (simp add: count_list_distinct)
  have "fst (getLinkedAccounts svc st1) = Inr (JArr ys)"
    using valid arr1 by (simp add: getLinkedAccounts_eq)
  with first second c d show ?thesis
    unfolding ys_def by blast
qed

theorem addAccount_idempotent_witness:
  "fst (getLinkedAccounts ''gmail'' (\<lambda>k. None)) = Inr (JArr []) \<and> distinct ([] :: string list)
   \<and> (\<exists>st1 ys. addAccount \<lparr>accountId = ''a@x.com'', service = ''gmail''\<rparr> (\<lambda>k. None) = (Inr (), st1)
           \<and> addAccount \<lparr>accountId = ''a@x.com'', service = ''gmail''\<rparr> st1 = (Inr (), st1)
           \<and> fst (getLinkedAccounts ''gmail'' st1) = Inr (JArr ys)
           \<and> ys = [''a@x.com'']
           \<and> count_list ys ''a@x.com'' = 1 \<and> distinct ys)"
proof -
  have h: "fst (getLinkedAccounts ''gmail'' (\<lambda>k. None)) = Inr (JArr [])"
    by (simp add: getLinkedAccounts_eq has_colon_def or_empty_array_def)
  show ?thesis
    using addAccount_idempotent [OF h, of "''a@x.com''"] h by simp
qed

text \<open>
  C6, as amended. Starting with no linked accounts and no active pointer for a service,
  \<open>addAccount\<close> of a first account with a non-empty identifier sets the pointer to that
  account, and a following \<open>addAccount\<close> of a second, distinct account leaves the
  pointer unchanged (and appends to the list).
\<close>

theorem first_account_becomes_active:
  assumes linked: "fst (getLinkedAccounts svc st) = Inr (JArr [])"
    and active: "fst (getActiveAccount svc st) = Inr None"
    and nonempty: "a \<noteq> []" and other: "b \<noteq> a"
  shows "\<exists>st1 st2. addAccount \<lparr>accountId = a, service = svc\<rparr> st = (Inr (), st1)
           \<and> fst (getActiveAccount svc st1) = Inr (Some (JStr a))
           \<and> fst (getLinkedAccounts svc st1) = Inr (JArr [a])
           \<and> addAccount \<lparr>accountId = b, service = svc\<rparr> st1 = (Inr (), st2)
           \<and> fst (getActiveAccount svc st2) = Inr (Some (JStr a))
           \<and> fst (getLinkedAccounts svc st2) = Inr (JArr [a, b])"
proof -
  have valid: "\<not> has_colon svc"
    using linked by (auto simp add: getLinkedAccounts_eq split: if_splits)
  have arr: "or_empty_array (st (svc @ '':linked'')) = JArr []"
    using linked valid by (simp add: getLinkedAccounts_eq)
  have act: "st (svc @ '':active'') = None"
    using active valid by (simp add: getActiveAccount_eq)
  define st1 where "st1 = st(svc @ '':linked'' \<mapsto> JArr [a], svc @ '':active'' \<mapsto> JStr a)"
  define st2 where "st2 = st1(svc @ '':linked'' \<mapsto> JArr [a, b])"
  have first: "addAccount \<lparr>accountId = a, service = svc\<rparr> st = (Inr (), st1)"
    using valid arr act by (simp add: addAccount_eq st1_def Let_def)
  have second: "addAccount \<lparr>accountId = b, service = svc\<rparr> st1 = (Inr (), st2)"
    using valid nonempty other by (simp add: addAccount_eq st1_def st2_def Let_def)
  have "fst (getActiveAccount svc st1) = Inr (Some (JStr a))"
    "fst (getLinkedAccounts svc st1) = Inr (JArr [a])"
    "fst (getActiveAccount svc st2) = Inr (Some (JStr a))"
    "fst (getLinkedAccounts svc st2) = Inr (JArr [a, b])"
    using valid by (simp_all add: getActiveAccount_eq getLinkedAccounts_eq st1_def st2_def)
  with first second show ?thesis by blast
qed

theorem first_account_becomes_active_witness:
  "fst (getLinkedAccounts ''gmail'' (\<lambda>k. None)) = Inr (JArr [])
   \<and> fst (getActiveAccount ''gmail'' (\<lambda>k. None)) = Inr None
   \<and> ''a@x.com'' \<noteq> [] \<and> ''b@x.com'' \<noteq> ''a@x.com''
   \<and> (\<exists>st1 st2. addAccount \<lparr>accountId = ''a@x.com'', service = ''gmail''\<rparr> (\<lambda>k. None) = (Inr (), st1)
           \<and> fst (getActiveAccount ''gmail'' st1) = Inr (Some (JStr ''a@x.com''))
           \<and> fst (getLinkedAccounts ''gmail'' st1) = Inr (JArr [''a@x.com''])
           \<and> addAccount \<lparr>accountId = ''b@x.com'', service = ''gmail''\<rparr> st1 = (Inr (), st2)
           \<and> fst (getActiveAccount ''gmail'' st2) = Inr (Some (JStr ''a@x.com''))
           \<and> fst (getLinkedAccounts ''gmail'' st2) = Inr (JArr [''a@x.com'', ''b@x.com'']))"
proof -
  have l: "fst (getLinkedAccounts ''gmail'' (\<lambda>k. None)) = Inr (JArr [])"
    by (simp add: getLinkedAccounts_eq has_colon_def or_empty_array_def)
  have a: "fst (getActiveAccount ''gmail'' (\<lambda>k. None)) = Inr None"
    by (simp add: getActiveAccount_eq has_colon_def)
  have n: "''a@x.com'' \<noteq> []" and o: "''b@x.com'' \<noteq> ''a@x.com''" by simp_all
  show ?thesis
    using first_account_becomes_active [OF l a n o] l a by simp
qed

text \<open>
  C6 as stated fails for the empty account identifier, which \<open>validateKeyParams\<close>
  accepts: the pointer is set to the empty string, \<open>if (!active)\<close> takes that for an
  absent pointer, and adding the second account moves the pointer to it.
\<close>

theorem empty_first_account_counterexample:
  "fst (getLinkedAccounts ''gmail'' (\<lambda>k. None)) = Inr (JArr [])
   \<and> fst (getActiveAccount ''gmail'' (\<lambda>k. None)) = Inr None
   \<and> \<not> has_colon [] \<and> ''b@x.com'' \<noteq> []
   \<and> fst (getActiveAccount ''gmail''
        (snd (addAccount \<lparr>accountId = [], service = ''gmail''\<rparr> (\<lambda>k. None))))
       = Inr (Some (JStr []))
   \<and> fst (getActiveAccount ''gmail''
        (snd (addAccount \<lparr>accountId = ''b@x.com'', service = ''gmail''\<rparr>
          (snd (addAccount \<lparr>accountId = [], service = ''gmail''\<rparr> (\<lambda>k. None))))))
       = Inr (Some (JStr ''b@x.com''))"
  by (simp add: getLinkedAccounts_eq getActiveAccount_eq addAccount_eq has_colon_def or_empty_array_def)


text \<open>
  C4, as amended. When the account removed is the active one (and its identifier is a
  valid key parameter), \<open>removeAccount\<close> succeeds, stores the list without the account,
  and leaves the pointer equal to the first element of that list when that element is a
  non-empty string; when no linked account remains, the pointer is deleted and
  \<open>getActiveAccount\<close> returns absent.
\<close>

theorem removing_active_account_repoints:
  assumes linked: "fst (getLinkedAccounts svc st) = Inr (JArr xs)"
    and active: "fst (getActiveAccount svc st) = Inr (Some (JStr a))"
    and valid_a: "\<not> has_colon a"
  shows "\<exists>st'. removeAccount \<lparr>accountId = a, service = svc\<rparr> st = (Inr (), st')
           \<and> fst (getLinkedAccounts svc st') = Inr (JArr (filter (\<lambda>id. id \<noteq> a) xs))
           \<and> (case filter (\<lambda>id. id \<noteq> a) xs of
                 [] \<Rightarrow> fst (getActiveAccount svc st') = Inr None
               | x # _ \<Rightarrow> x \<noteq> [] \<longrightarrow> fst (getActiveAccount svc st') = Inr (Some (JStr x)))"
proof -
  have valid: "\<not> has_colon svc"
    using linked by (auto simp add: getLinkedAccounts_eq split: if_splits)
  have arr: "or_empty_array (st (svc @ '':linked'')) = JArr xs"
    using linked valid by (simp add: getLinkedAccounts_eq)
  have act: "st (svc @ '':active'') = Some (JStr a)"
    using active valid by (simp add: getActiveAccount_eq)
  show ?thesis
    using valid valid_a arr act
    by (auto simp add: removeAccount_eq getLinkedAccounts_eq getActiveAccount_eq Let_def
        split: list.splits)
qed

theorem removing_active_account_repoints_witness:
  "fst (getLinkedAccounts ''gmail''
      ((\<lambda>k. None)(''gmail:linked'' \<mapsto> JArr [''a@x.com'', ''b@x.com''], ''gmail:active'' \<mapsto> JStr ''a@x.com'')))
     = Inr (JArr [''a@x.com'', ''b@x.com''])
   \<and> fst (getActiveAccount ''gmail''
      ((\<lambda>k. None)(''gmail:linked'' \<mapsto> JArr [''a@x.com'', ''b@x.com''], ''gmail:active'' \<mapsto> JStr ''a@x.com'')))
     = Inr (Some (JStr ''a@x.com''))
   \<and> \<not> has_colon ''a@x.com''
   \<and> (\<exists>st'. removeAccount \<lparr>accountId = ''a@x.com'', service = ''gmail''\<rparr>
        ((\<lambda>k. None)(''gmail:linked'' \<mapsto> JArr [''a@x.com'', ''b@x.com''], ''gmail:active'' \<mapsto> JStr ''a@x.com''))
          = (Inr (), st')
        \<and> fst (getLinkedAccounts ''gmail'' st') = Inr (JArr [''b@x.com''])
        \<and> fst (getActiveAccount ''gmail'' st') = Inr (Some (JStr ''b@x.com'')))"
proof -
  let ?st = "(\<lambda>k. None)(''gmail:linked'' \<mapsto> JArr [''a@x.com'', ''b@x.com''], ''gmail:active'' \<mapsto> JStr ''a@x.com'')"
  have l: "fst (getLinkedAccounts ''gmail'' ?st) = Inr (JArr [''a@x.com'', ''b@x.com''])"
    by (simp add: getLinkedAccounts_eq has_colon_def)
  have a: "fst (getActiveAccount ''gmail'' ?st) = Inr (Some (JStr ''a@x.com''))"
    by (simp add: getActiveAccount_eq has_colon_def)
  have v: "\<not> has_colon ''a@x.com''" by (simp add: has_colon_def)
  show ?thesis
    using removing_active_account_repoints [OF l a v] l a v by simp
qed

text \<open>
  C4 as stated fails when the first remaining account has the empty identifier: after
  adding \<open>a@x.com\<close> and then the empty identifier, removing the active \<open>a@x.com\<close>
  leaves a list of one account and no pointer, because \<open>if (newActive)\<close> is false for
  the empty string.
\<close>

theorem removing_active_account_empty_id_counterexample:
  "fst (getLinkedAccounts ''gmail''
      (snd (addAccount \<lparr>accountId = [], service = ''gmail''\<rparr>
        (snd (addAccount \<lparr>accountId = ''a@x.com'', service = ''gmail''\<rparr> (\<lambda>k. None))))))
     = Inr (JArr [''a@x.com'', []])
   \<and> fst (getActiveAccount ''gmail''
      (snd (addAccount \<lparr>accountId = [], service = ''gmail''\<rparr>
        (snd (addAccount \<lparr>accountId = ''a@x.com'', service = ''gmail''\<rparr> (\<lambda>k. None))))))
     = Inr (Some (JStr ''a@x.com''))
   \<and> fst (getLinkedAccounts ''gmail'' (snd (removeAccount \<lparr>accountId = ''a@x.com'', service = ''gmail''\<rparr>
      (snd (addAccount \<lparr>accountId = [], service = ''gmail''\<rparr>
        (snd (addAccount \<lparr>accountId = ''a@x.com'', service = ''gmail''\<rparr> (\<lambda>k. None))))))))
     = Inr (JArr [[]])
   \<and> fst (getActiveAccount ''gmail'' (snd (removeAccount \<lparr>accountId = ''a@x.com'', service = ''gmail''\<rparr>
      (snd (addAccount \<lparr>accountId = [], service = ''gmail''\<rparr>
        (snd (addAccount \<lparr>accountId = ''a@x.com'', service = ''gmail''\<rparr> (\<lambda>k. None))))))))
     = Inr None"
  by (simp add: getLinkedAccounts_eq getActiveAccount_eq removeAccount_eq addAccount_eq has_colon_def
      or_empty_array_def)

section \<open>Enumeration and the tool handlers\<close>

text \<open>
  C8. The claim says that \<open>listAccountIds\<close> returns an empty sequence when key iteration
  raises at any point, and the comment in the \<open>catch\<close> clause says the same. The code
  returns the accumulator: when the iterator yields the token key of \<open>a@x.com\<close> for
  \<open>gmail\<close> and then raises, the result is that one identifier, not the empty sequence.
\<close>

theorem listAccountIds_keeps_ids_collected_before_failure:
  "listAccountIds (Some (Yield ''a@x.com:gmail:token'' (Raise (StoreError ''iteration failed'')))) ''gmail''
     = [''a@x.com'']"
  by (simp add: listAccountIds_def parseTokenKey_def)

lemma listAccountIds_no_iterator: "listAccountIds None svc = []"
  by (simp add: listAccountIds_def)

lemma listAccountIds_raise_first: "listAccountIds (Some (Raise e)) svc = []"
  by (simp add: listAccountIds_def)

lemma collect_ids_yield_all:
  "collect_ids svc (yield_all keys) acc =
     acc @ map accountId (filter (\<lambda>p. service p = svc) (List.map_filter parseTokenKey keys))"
  by (induction keys arbitrary: acc) (auto simp add: List.map_filter_simps split: option.splits)

lemma listAccountIds_complete_iteration:
  "listAccountIds (Some (yield_all keys)) svc =
     map accountId (filter (\<lambda>p. service p = svc) (List.map_filter parseTokenKey keys))"
  by (simp add: listAccountIds_def collect_ids_yield_all)

lemma getAccountInfo_eq:
  "getAccountInfo p st =
     (if has_colon (accountId p) \<or> has_colon (service p) then (Inl InvalidKeyParameter, st)
      else (Inr (st (accountId p @ '':'' @ service p @ '':metadata'')), st))"
  by (simp add: getAccountInfo_def io_defs createAccountKey_eq)

lemma setAccountInfo_eq:
  "setAccountInfo p info st =
     (if has_colon (accountId p) \<or> has_colon (service p) then (Inl InvalidKeyParameter, st)
      else (Inr (), st(accountId p @ '':'' @ service p @ '':metadata'' \<mapsto> JInfo info)))"
  by (simp add: setAccountInfo_def io_defs createAccountKey_eq)

lemma alias_scan_store: "snd (alias_scan svc r xs st) = st"
  by (induction xs) (auto simp add: io_bind_def io_return_def getAccountInfo_eq)

lemma findAccount_eq:
  "findAccountByEmailOrAlias svc r st =
     (if has_colon svc then (Inl InvalidKeyParameter, st)
      else case or_empty_array (st (svc @ '':linked'')) of
             JArr xs \<Rightarrow> if r \<in> set xs then (Inr (Some r), st) else alias_scan svc r xs st
           | _ \<Rightarrow> (Inl TypeError, st))"
  by (auto simp add: findAccountByEmailOrAlias_def io_bind_def io_return_def getLinkedAccounts_eq
      as_array_eq split: jsval.splits)

lemma findAccount_store: "snd (findAccountByEmailOrAlias svc r st) = st"
  by (auto simp add: findAccount_eq alias_scan_store split: jsval.splits)

lemma alias_scan_eq:
  assumes "\<not> has_colon svc" and "\<forall>x \<in> set xs. \<not> has_colon x"
  shows "alias_scan svc r xs st =
           (Inr (List.find (\<lambda>a. info_alias (st (a @ '':'' @ svc @ '':metadata'')) = Some r) xs), st)"
  using assms
  by (induction xs) (simp_all add: io_bind_def io_return_def getAccountInfo_eq)

text \<open>When the linked identifiers are valid key parameters, the code resolves a reference
  as the specification's rule does, and does not touch the store.\<close>

lemma findAccount_resolution:
  assumes "fst (getLinkedAccounts svc st) = Inr (JArr xs)"
    and "\<forall>x \<in> set xs. \<not> has_colon x"
  shows "findAccountByEmailOrAlias svc r st = (Inr (spec_resolve_reference st svc xs r), st)"
proof -
  have valid: "\<not> has_colon svc"
    using assms(1) by (auto simp add: getLinkedAccounts_eq split: if_splits)
  then have "or_empty_array (st (svc @ '':linked'')) = JArr xs"
    using assms(1) by (simp add: getLinkedAccounts_eq)
  then show ?thesis
    using valid assms(2) by (simp add: findAccount_eq alias_scan_eq spec_resolve_reference_def)
qed

lemma spec_resolve_reference_member:
  "spec_resolve_reference st svc xs r = Some a \<Longrightarrow> a \<in> set xs"
  by (auto simp add: spec_resolve_reference_def find_Some_iff split: if_splits)

lemma account_remove_when_not_found:
  assumes unresolved: "fst (findAccountByEmailOrAlias svc reference st) = Inr None"
  shows "account_remove svc reference st =
           (Inl (McpError (''Error removing '' @ svc @ '' account: '')
                   (if fst (getLinkedAccounts svc st) = Inr (JArr []) then NoAccountsToRemove svc
                    else AccountNotFound reference)),
            st)"
proof -
  have valid: "\<not> has_colon svc"
    using unresolved by (auto simp add: findAccount_eq split: if_splits)
  obtain xs where arr: "or_empty_array (st (svc @ '':linked'')) = JArr xs"
    using unresolved valid by (cases "or_empty_array (st (svc @ '':linked''))") (auto simp add: findAccount_eq)
  have find: "findAccountByEmailOrAlias svc reference st = (Inr None, st)"
    using unresolved findAccount_store [of svc reference st] by (metis prod.collapse)
  show ?thesis
    using valid arr find
    by (simp add: account_remove_def catch_mcp_def io_bind_def io_throw_def getLinkedAccounts_eq)
qed

text \<open>
  C9, as amended. In a directory whose linked identifiers for the service are valid key
  parameters (none contains a colon), when the reference resolves to no linked account
  (no exact match on an identifier and no linked account with that alias), account-remove
  throws and leaves the store exactly as it was: the error is "No accounts to remove" when
  the linked-accounts list is empty and "Account not found" otherwise. It never succeeds.
\<close>

theorem account_remove_unresolved_is_error:
  assumes linked: "fst (getLinkedAccounts svc st) = Inr (JArr xs)"
    and valid_ids: "\<forall>x \<in> set xs. \<not> has_colon x"
    and unresolved: "spec_resolve_reference st svc xs reference = None"
  shows "account_remove svc reference st =
           (Inl (McpError (''Error removing '' @ svc @ '' account: '')
                   (if xs = [] then NoAccountsToRemove svc else AccountNotFound reference)),
            st)"
proof -
  have "fst (findAccountByEmailOrAlias svc reference st) = Inr None"
    using findAccount_resolution [OF linked valid_ids, of reference] unresolved by simp
  from account_remove_when_not_found [OF this] linked
  show ?thesis by simp
qed

theorem account_remove_unresolved_is_error_witness:
  "fst (getLinkedAccounts ''gmail''
         (snd (addAccount \<lparr>accountId = ''user1@gmail.com'', service = ''gmail''\<rparr> (\<lambda>k. None))))
     = Inr (JArr [''user1@gmail.com''])
   \<and> \<not> has_colon ''user1@gmail.com''
   \<and> spec_resolve_reference
         (snd (addAccount \<lparr>accountId = ''user1@gmail.com'', service = ''gmail''\<rparr> (\<lambda>k. None)))
         ''gmail'' [''user1@gmail.com''] ''nonexistent@gmail.com'' = None
   \<and> account_remove ''gmail'' ''nonexistent@gmail.com''
         (snd (addAccount \<lparr>accountId = ''user1@gmail.com'', service = ''gmail''\<rparr> (\<lambda>k. None)))
       = (Inl (McpError ''Error removing gmail account: '' (AccountNotFound ''nonexistent@gmail.com'')),
          snd (addAccount \<lparr>accountId = ''user1@gmail.com'', service = ''gmail''\<rparr> (\<lambda>k. None)))"
proof -
  let ?st = "snd (addAccount \<lparr>accountId = ''user1@gmail.com'', service = ''gmail''\<rparr> (\<lambda>k. None))"
  have l: "fst (getLinkedAccounts ''gmail'' ?st) = Inr (JArr [''user1@gmail.com''])"
    by (simp add: getLinkedAccounts_eq addAccount_eq has_colon_def or_empty_array_def)
  have v: "\<forall>x \<in> set [''user1@gmail.com'']. \<not> has_colon x"
    by (simp add: has_colon_def)
  have u: "spec_resolve_reference ?st ''gmail'' [''user1@gmail.com''] ''nonexistent@gmail.com'' = None"
    by (simp add: spec_resolve_reference_def addAccount_eq has_colon_def or_empty_array_def)
  show ?thesis
    using account_remove_unresolved_is_error [OF l v u] l v u by simp
qed

text \<open>
  C9 as stated fails in two ways. On an empty directory the reference resolves to no
  linked account and the error reported is "No gmail accounts to remove", which the guard
  before the lookup throws, not "Account not found". And when an earlier linked identifier
  contains a colon (\<open>addAccount\<close> does not validate it), the alias scan throws the
  key-parameter error before it can report that nothing matched.
\<close>

theorem account_remove_empty_directory_counterexample:
  "spec_resolve_reference (\<lambda>k. None) ''gmail'' [] ''x@y.com'' = None
   \<and> fst (findAccountByEmailOrAlias ''gmail'' ''x@y.com'' (\<lambda>k. None)) = Inr None
   \<and> account_remove ''gmail'' ''x@y.com'' (\<lambda>k. None)
       = (Inl (McpError ''Error removing gmail account: '' (NoAccountsToRemove ''gmail'')), (\<lambda>k. None))
   \<and> NoAccountsToRemove ''gmail'' \<noteq> AccountNotFound ''x@y.com''
   \<and> fst (getLinkedAccounts ''gmail''
         (snd (addAccount \<lparr>accountId = ''c@x.com'', service = ''gmail''\<rparr>
           (snd (addAccount \<lparr>accountId = ''a:b'', service = ''gmail''\<rparr> (\<lambda>k. None))))))
       = Inr (JArr [''a:b'', ''c@x.com''])
   \<and> spec_resolve_reference
         (snd (addAccount \<lparr>accountId = ''c@x.com'', service = ''gmail''\<rparr>
           (snd (addAccount \<lparr>accountId = ''a:b'', service = ''gmail''\<rparr> (\<lambda>k. None)))))
         ''gmail'' [''a:b'', ''c@x.com''] ''zzz'' = None
   \<and> fst (account_remove ''gmail'' ''zzz''
         (snd (addAccount \<lparr>accountId = ''c@x.com'', service = ''gmail''\<rparr>
           (snd (addAccount \<lparr>accountId = ''a:b'', service = ''gmail''\<rparr> (\<lambda>k. None))))))
       = Inl (McpError ''Error removing gmail account: '' InvalidKeyParameter)"
  by (simp add: findAccount_eq has_colon_def or_empty_array_def io_return_def
      account_remove_def catch_mcp_def io_bind_def io_throw_def getLinkedAccounts_eq
      spec_resolve_reference_def addAccount_eq getAccountInfo_eq)

lemma in_store_eq: "in_store m w = (fst (m (kv w)), w\<lparr>kv := snd (m (kv w))\<rparr>)"
  by (simp add: in_store_def split: prod.splits)

lemma call_getAccessToken_eq:
  "call_getAccessToken auth hint w =
     (fst (auth hint (kv w)), \<lparr>kv = snd (auth hint (kv w)), oauth_log = oauth_log w @ [hint]\<rparr>)"
  by (simp add: call_getAccessToken_def split: prod.splits)

lemma switch_oauth_no_pointer:
  assumes "\<not> has_colon svc" and "auth (''new:'' @ uuid) (kv w) = (Inr token, st1)"
    and "\<not> truthy (st1 (svc @ '':active''))"
  shows "switch_oauth svc auth uuid now params existing w =
           (Inl OAuthNoActiveAccount, \<lparr>kv = st1, oauth_log = oauth_log w @ [''new:'' @ uuid]\<rparr>)"
  using assms
  by (simp add: switch_oauth_def io_bind_def io_throw_def call_getAccessToken_eq in_store_eq
      getActiveAccount_eq)

lemma io_bind_Inr:
  "io_bind m f st = (Inr y, st'') \<Longrightarrow> \<exists>x st'. m st = (Inr x, st') \<and> f x st' = (Inr y, st'')"
  by (auto simp add: io_bind_def split: prod.splits sum.splits)

lemma switch_oauth_email:
  assumes valid: "\<not> has_colon svc" and flow: "auth (''new:'' @ uuid) (kv w) = (Inr token, st1)"
    and ok: "switch_oauth svc auth uuid now params existing w = (Inr r, w')"
  shows "st1 (svc @ '':active'') = Some (JStr (r_email r))"
proof -
  let ?w1 = "\<lparr>kv = st1, oauth_log = oauth_log w @ [''new:'' @ uuid]\<rparr>"
  have step: "(if \<not> truthy (st1 (svc @ '':active'')) then io_throw OAuthNoActiveAccount
     else (case st1 (svc @ '':active'') of
             Some (JStr em) \<Rightarrow>
               io_bind (as_array existing) (\<lambda>xs.
               let new = (em \<notin> set xs) in
               io_bind (if new then in_store (addAccount \<lparr>accountId = em, service = svc\<rparr>)
                        else io_return ()) (\<lambda>_.
               io_bind (in_store (getAccountInfo \<lparr>accountId = em, service = svc\<rparr>)) (\<lambda>existingInfo.
               io_bind (in_store (setAccountInfo \<lparr>accountId = em, service = svc\<rparr>
                          \<lparr>email = em,
                           alias = (if str_truthy (p_alias params) then p_alias params else None),
                           addedAt = (if new then now
                                      else (case info_addedAt existingInfo of
                                              Some t \<Rightarrow> t
                                            | None \<Rightarrow> now)),
                           lastUsed = None, metadata = None\<rparr>)) (\<lambda>_.
               io_bind (in_store (setActiveAccount svc (Some em))) (\<lambda>_.
               io_return \<lparr>r_email = em, isNew = new,
                          totalAccounts = (if new then length xs + 1 else length xs)\<rparr>)))))
           | _ \<Rightarrow> io_throw InvalidKeyParameter)) ?w1 = (Inr r, w')"
    using ok valid flow
    by (simp add: switch_oauth_def io_bind_def call_getAccessToken_eq in_store_eq getActiveAccount_eq)
  show ?thesis
  proof (cases "st1 (svc @ '':active'')")
    case None
    then show ?thesis using step by (simp add: io_throw_def)
  next
    case (Some v)
    show ?thesis
    proof (cases v)
      case (JStr em)
      have tr: "truthy (st1 (svc @ '':active''))"
        using step Some JStr by (auto simp add: io_throw_def split: if_splits)
      have "r_email r = em"
        using step Some JStr tr
        by (auto simp add: Let_def io_return_def dest!: io_bind_Inr)
      then show ?thesis using Some JStr by simp
    qed (use step Some in \<open>auto simp add: io_throw_def split: if_splits\<close>)
  qed
qed


lemma account_switch_oauth_path:
  assumes linked: "fst (getLinkedAccounts svc (kv w)) = Inr existing"
    and unresolved: "case p_email params of
                       None \<Rightarrow> True
                     | Some em \<Rightarrow> em \<noteq> [] \<longrightarrow>
                         (\<exists>r. fst (findAccountByEmailOrAlias svc em (kv w)) = Inr r \<and> \<not> str_truthy r)"
  shows "account_switch svc auth uuid now params w =
           catch_mcp (''Error switching '' @ svc @ '' account: '')
             (switch_oauth svc auth uuid now params existing) w"
proof -
  have valid: "\<not> has_colon svc"
    using linked by (auto simp add: getLinkedAccounts_eq split: if_splits)
  have arr: "or_empty_array (kv w (svc @ '':linked'')) = existing"
    using linked valid by (simp add: getLinkedAccounts_eq)
  show ?thesis
  proof (cases "p_email params")
    case None
    then show ?thesis
      using valid arr
      by (simp add: account_switch_def catch_mcp_def io_bind_def io_return_def in_store_eq
          getLinkedAccounts_eq)
  next
    case (Some em)
    show ?thesis
    proof (cases "em = []")
      case True
      then show ?thesis
        using valid arr Some
        by (simp add: account_switch_def catch_mcp_def io_bind_def io_return_def in_store_eq
            getLinkedAccounts_eq)
    next
      case False
      then obtain r where r: "fst (findAccountByEmailOrAlias svc em (kv w)) = Inr r" "\<not> str_truthy r"
        using unresolved Some by auto
      have find: "findAccountByEmailOrAlias svc em (kv w) = (Inr r, kv w)"
        using r(1) findAccount_store [of svc em "kv w"] by (metis prod.collapse)
      show ?thesis
        using valid arr Some False find r(2)
        by (cases r) (simp_all add: account_switch_def catch_mcp_def io_bind_def io_return_def in_store_eq
            getLinkedAccounts_eq)
    qed
  qed
qed

text \<open>
  C10, as amended. On the OAuth path of account-switch (no \<open>email\<close> argument, or one that does not
  resolve), after \<open>auth.getAccessToken\<close> has returned any token and left the store as
  \<open>st1\<close>: if the active-account pointer read from \<open>st1\<close> is absent (or empty), the handler
  throws "OAuth flow completed without setting an active account" and the store is
  exactly \<open>st1\<close>, so the handler itself has written nothing (and the store is the
  pre-call store when the provider wrote nothing); and whenever the handler succeeds, the
  email it reports is the pointer read from \<open>st1\<close>, never the provider's return value.
\<close>

theorem switch_oauth_reads_pointer:
  assumes linked: "fst (getLinkedAccounts svc (kv w)) = Inr existing"
    and unresolved: "case p_email params of
                       None \<Rightarrow> True
                     | Some em \<Rightarrow> em \<noteq> [] \<longrightarrow>
                         (\<exists>r. fst (findAccountByEmailOrAlias svc em (kv w)) = Inr r \<and> \<not> str_truthy r)"
    and flow: "auth (''new:'' @ uuid) (kv w) = (Inr token, st1)"
  shows "(\<forall>v. fst (getActiveAccount svc st1) = Inr v \<and> \<not> truthy v \<longrightarrow>
            account_switch svc auth uuid now params w
              = (Inl (McpError (''Error switching '' @ svc @ '' account: '') OAuthNoActiveAccount),
                 \<lparr>kv = st1, oauth_log = oauth_log w @ [''new:'' @ uuid]\<rparr>))
         \<and> (\<forall>r w'. account_switch svc auth uuid now params w = (Inr r, w') \<longrightarrow>
              fst (getActiveAccount svc st1) = Inr (Some (JStr (r_email r))))"
proof -
  have valid: "\<not> has_colon svc"
    using linked by (auto simp add: getLinkedAccounts_eq split: if_splits)
  note path = account_switch_oauth_path [OF linked unresolved, of auth uuid now]
  have absent: "account_switch svc auth uuid now params w
              = (Inl (McpError (''Error switching '' @ svc @ '' account: '') OAuthNoActiveAccount),
                 \<lparr>kv = st1, oauth_log = oauth_log w @ [''new:'' @ uuid]\<rparr>)"
    if "fst (getActiveAccount svc st1) = Inr v" "\<not> truthy v" for v
  proof -
    have "\<not> truthy (st1 (svc @ '':active''))"
      using that valid by (simp add: getActiveAccount_eq)
    from switch_oauth_no_pointer [where auth = auth and uuid = uuid and w = w, OF valid flow this]
    show ?thesis by (simp add: path catch_mcp_def)
  qed
  have present: "fst (getActiveAccount svc st1) = Inr (Some (JStr (r_email r)))"
    if "account_switch svc auth uuid now params w = (Inr r, w')" for r w'
  proof -
    have "switch_oauth svc auth uuid now params existing w = (Inr r, w')"
      using that by (auto simp add: path catch_mcp_def split: prod.splits sum.splits)
    from switch_oauth_email [where auth = auth and uuid = uuid and w = w, OF valid flow this]
    show ?thesis using valid by (simp add: getActiveAccount_eq)
  qed
  from absent present show ?thesis by blast
qed


lemmas handler_eval =
  account_switch_def switch_reuse_def switch_oauth_def catch_mcp_def io_bind_def io_return_def
  io_throw_def in_store_eq call_getAccessToken_eq getLinkedAccounts_eq getActiveAccount_eq
  setActiveAccount_eq getAccountInfo_eq setAccountInfo_eq addAccount_eq findAccount_eq as_array_eq
  has_colon_def or_empty_array_def Let_def

theorem switch_oauth_reads_pointer_witness:
  "fst (getLinkedAccounts ''gmail'' (kv \<lparr>kv = (\<lambda>k. None), oauth_log = []\<rparr>)) = Inr (JArr [])
   \<and> account_switch ''gmail'' (\<lambda>hint st. (Inr ''token'', st)) ''u'' ''t''
        \<lparr>p_email = None, p_alias = None\<rparr> \<lparr>kv = (\<lambda>k. None), oauth_log = []\<rparr>
       = (Inl (McpError ''Error switching gmail account: '' OAuthNoActiveAccount),
          \<lparr>kv = (\<lambda>k. None), oauth_log = [''new:u'']\<rparr>)
   \<and> fst (account_switch ''gmail'' (\<lambda>hint st. (Inr ''token'', st(''gmail:active'' \<mapsto> JStr ''b@x.com''))) ''u'' ''t''
        \<lparr>p_email = None, p_alias = None\<rparr> \<lparr>kv = (\<lambda>k. None), oauth_log = []\<rparr>)
       = Inr \<lparr>r_email = ''b@x.com'', isNew = True, totalAccounts = 1\<rparr>
   \<and> fst (getActiveAccount ''gmail'' ((\<lambda>k. None)(''gmail:active'' \<mapsto> JStr ''b@x.com'')))
       = Inr (Some (JStr ''b@x.com''))"
proof -
  let ?w = "\<lparr>kv = (\<lambda>k. None), oauth_log = []\<rparr>"
  let ?p = "\<lparr>p_email = None, p_alias = None\<rparr>"
  let ?idle = "\<lambda>(hint :: string) (st :: store). (Inr ''token'' :: error + string, st)"
  let ?sets = "\<lambda>(hint :: string) (st :: store). (Inr ''token'' :: error + string, st(''gmail:active'' \<mapsto> JStr ''b@x.com''))"
  have l: "fst (getLinkedAccounts ''gmail'' (kv ?w)) = Inr (JArr [])"
    by (simp add: getLinkedAccounts_eq has_colon_def or_empty_array_def)
  have u: "case p_email ?p of None \<Rightarrow> True
           | Some em \<Rightarrow> em \<noteq> [] \<longrightarrow>
               (\<exists>r. fst (findAccountByEmailOrAlias ''gmail'' em (kv ?w)) = Inr r \<and> \<not> str_truthy r)"
    by simp
  have f1: "?idle (''new:'' @ ''u'') (kv ?w) = (Inr ''token'', (\<lambda>k. None))" by simp
  have f2: "?sets (''new:'' @ ''u'') (kv ?w) = (Inr ''token'', (\<lambda>k. None)(''gmail:active'' \<mapsto> JStr ''b@x.com''))"
    by simp
  have a1: "fst (getActiveAccount ''gmail'' (\<lambda>k. None)) = Inr None \<and> \<not> truthy None"
    by (simp add: getActiveAccount_eq has_colon_def)
  have run_fst: "fst (account_switch ''gmail'' ?sets ''u'' ''t'' ?p ?w)
      = Inr \<lparr>r_email = ''b@x.com'', isNew = True, totalAccounts = 1\<rparr>"
    by (simp add: handler_eval)
  then have run: "account_switch ''gmail'' ?sets ''u'' ''t'' ?p ?w
      = (Inr \<lparr>r_email = ''b@x.com'', isNew = True, totalAccounts = 1\<rparr>,
         snd (account_switch ''gmail'' ?sets ''u'' ''t'' ?p ?w))"
    by (metis prod.collapse)
  from switch_oauth_reads_pointer [where auth = ?idle and now = "''t''", OF l u f1] a1
  have first: "account_switch ''gmail'' ?idle ''u'' ''t'' ?p ?w
       = (Inl (McpError ''Error switching gmail account: '' OAuthNoActiveAccount),
          \<lparr>kv = (\<lambda>k. None), oauth_log = [''new:u'']\<rparr>)"
    by simp
  from switch_oauth_reads_pointer [where auth = ?sets and now = "''t''", OF l u f2] run
  have second: "fst (getActiveAccount ''gmail'' ((\<lambda>k. None)(''gmail:active'' \<mapsto> JStr ''b@x.com'')))
       = Inr (Some (JStr ''b@x.com''))"
    by (metis switch_result.select_convs(1))
  from l first run_fst second show ?thesis by simp
qed


text \<open>
  C10 as stated fails in its last clause: the provider acts on the store before the
  handler reads the pointer. With a provider that links \<open>x@y.com\<close> for \<open>gmail\<close> and
  sets no pointer, the handler throws as the claim says and writes nothing itself, but the
  list read after the call is not the list read before it.
\<close>

theorem switch_oauth_provider_writes_counterexample:
  "fst (getLinkedAccounts ''gmail'' (kv \<lparr>kv = (\<lambda>k. None), oauth_log = []\<rparr>)) = Inr (JArr [])
   \<and> fst (account_switch ''gmail''
            (\<lambda>hint st. (Inr ''token'', st(''gmail:linked'' \<mapsto> JArr [''x@y.com''])))
            ''u'' ''t'' \<lparr>p_email = None, p_alias = None\<rparr> \<lparr>kv = (\<lambda>k. None), oauth_log = []\<rparr>)
       = Inl (McpError ''Error switching gmail account: '' OAuthNoActiveAccount)
   \<and> fst (getLinkedAccounts ''gmail'' (kv (snd (account_switch ''gmail''
            (\<lambda>hint st. (Inr ''token'', st(''gmail:linked'' \<mapsto> JArr [''x@y.com''])))
            ''u'' ''t'' \<lparr>p_email = None, p_alias = None\<rparr> \<lparr>kv = (\<lambda>k. None), oauth_log = []\<rparr>))))
       = Inr (JArr [''x@y.com''])
   \<and> kv (snd (account_switch ''gmail''
            (\<lambda>hint st. (Inr ''token'', st(''gmail:linked'' \<mapsto> JArr [''x@y.com''])))
            ''u'' ''t'' \<lparr>p_email = None, p_alias = None\<rparr> \<lparr>kv = (\<lambda>k. None), oauth_log = []\<rparr>))
       \<noteq> (\<lambda>k. None)"
proof -
  let ?out = "account_switch ''gmail''
            (\<lambda>hint st. (Inr ''token'', st(''gmail:linked'' \<mapsto> JArr [''x@y.com''])))
            ''u'' ''t'' \<lparr>p_email = None, p_alias = None\<rparr> \<lparr>kv = (\<lambda>k. None), oauth_log = []\<rparr>"
  have before: "fst (getLinkedAccounts ''gmail'' (kv \<lparr>kv = (\<lambda>k. None), oauth_log = []\<rparr>)) = Inr (JArr [])"
    by (simp add: handler_eval)
  have err: "fst ?out = Inl (McpError ''Error switching gmail account: '' OAuthNoActiveAccount)"
    by (simp add: handler_eval)
  have after: "fst (getLinkedAccounts ''gmail'' (kv (snd ?out))) = Inr (JArr [''x@y.com''])"
    by (simp add: handler_eval)
  have "kv (snd ?out) \<noteq> (\<lambda>k. None)"
  proof
    assume "kv (snd ?out) = (\<lambda>k. None)"
    then have "fst (getLinkedAccounts ''gmail'' (kv (snd ?out))) = Inr (JArr [])"
      by (simp add: handler_eval)
    with after show False by simp
  qed
  with before err after show ?thesis by simp
qed

lemma switch_reuse_when_found:
  assumes given: "p_email params = Some reference" and supplied: "reference \<noteq> []"
    and linked: "fst (getLinkedAccounts svc (kv w)) = Inr (JArr xs)"
    and found: "fst (findAccountByEmailOrAlias svc reference (kv w)) = Inr (Some a)"
    and nonempty: "a \<noteq> []"
    and alias_ok: "str_truthy (p_alias params) \<longrightarrow> \<not> has_colon a"
  shows "\<exists>w'. account_switch svc auth uuid now params w
                   = (Inr \<lparr>r_email = a, isNew = False, totalAccounts = length xs\<rparr>, w')
           \<and> oauth_log w' = oauth_log w
           \<and> fst (getActiveAccount svc (kv w')) = Inr (Some (JStr a))"
proof -
  have valid: "\<not> has_colon svc"
    using found by (auto simp add: findAccount_eq split: if_splits)
  have arr: "or_empty_array (kv w (svc @ '':linked'')) = JArr xs"
    using linked valid by (simp add: getLinkedAccounts_eq)
  have find: "findAccountByEmailOrAlias svc reference (kv w) = (Inr (Some a), kv w)"
    using found findAccount_store [of svc reference "kv w"] by (metis prod.collapse)
  show ?thesis
  proof (cases "str_truthy (p_alias params)")
    case True
    then have "\<not> has_colon a" using alias_ok by simp
    then show ?thesis
      using valid arr find given supplied nonempty True
      by (simp add: account_switch_def catch_mcp_def io_bind_def io_return_def in_store_eq
          switch_reuse_def getLinkedAccounts_eq setActiveAccount_eq getAccountInfo_eq setAccountInfo_eq
          as_array_eq getActiveAccount_eq)
  next
    case False
    then show ?thesis
      using valid arr find given supplied nonempty
      by (simp add: account_switch_def catch_mcp_def io_bind_def io_return_def in_store_eq
          switch_reuse_def getLinkedAccounts_eq setActiveAccount_eq
          as_array_eq getActiveAccount_eq)
  qed
qed

text \<open>
  C2, as amended. In a directory whose linked identifiers for the service are valid key
  parameters (none contains a colon), when the supplied non-empty reference resolves (by
  exact match on the account identifier, else by the first alias match in list order) to a
  linked account with a non-empty identifier, account-switch succeeds with that account,
  \<open>isNew = false\<close> and the number of linked accounts, the active-account pointer is that
  account afterwards, and \<open>auth.getAccessToken\<close> is not called: the log of calls is
  unchanged, whatever the provider is.
\<close>

theorem switch_reuses_linked_account:
  assumes given: "p_email params = Some reference" and supplied: "reference \<noteq> []"
    and linked: "fst (getLinkedAccounts svc (kv w)) = Inr (JArr xs)"
    and valid_ids: "\<forall>x \<in> set xs. \<not> has_colon x"
    and resolved: "spec_resolve_reference (kv w) svc xs reference = Some a"
    and nonempty: "a \<noteq> []"
  shows "\<exists>w'. account_switch svc auth uuid now params w
                   = (Inr \<lparr>r_email = a, isNew = False, totalAccounts = length xs\<rparr>, w')
           \<and> oauth_log w' = oauth_log w
           \<and> fst (getActiveAccount svc (kv w')) = Inr (Some (JStr a))
           \<and> a \<in> set xs"
proof -
  have found: "fst (findAccountByEmailOrAlias svc reference (kv w)) = Inr (Some a)"
    using findAccount_resolution [OF linked valid_ids, of reference] resolved by simp
  have member: "a \<in> set xs"
    using resolved by (rule spec_resolve_reference_member)
  then have "str_truthy (p_alias params) \<longrightarrow> \<not> has_colon a"
    using valid_ids by simp
  from switch_reuse_when_found [where auth = auth and uuid = uuid and now = now,
      OF given supplied linked found nonempty this] member
  show ?thesis by blast
qed

theorem switch_reuses_linked_account_witness:
  "p_email \<lparr>p_email = Some ''work'', p_alias = None\<rparr> = Some ''work'' \<and> ''work'' \<noteq> []
   \<and> fst (getLinkedAccounts ''gmail''
        (kv \<lparr>kv = snd (setAccountInfo \<lparr>accountId = ''user2@gmail.com'', service = ''gmail''\<rparr>
                     \<lparr>email = ''user2@gmail.com'', alias = Some ''work'', addedAt = ''t0'',
                      lastUsed = None, metadata = None\<rparr>
                   (snd (addAccount \<lparr>accountId = ''user2@gmail.com'', service = ''gmail''\<rparr>
                     (snd (addAccount \<lparr>accountId = ''user1@gmail.com'', service = ''gmail''\<rparr> (\<lambda>k. None)))))),
              oauth_log = []\<rparr>))
       = Inr (JArr [''user1@gmail.com'', ''user2@gmail.com''])
   \<and> \<not> has_colon ''user1@gmail.com'' \<and> \<not> has_colon ''user2@gmail.com''
   \<and> spec_resolve_reference
        (kv \<lparr>kv = snd (setAccountInfo \<lparr>accountId = ''user2@gmail.com'', service = ''gmail''\<rparr>
                     \<lparr>email = ''user2@gmail.com'', alias = Some ''work'', addedAt = ''t0'',
                      lastUsed = None, metadata = None\<rparr>
                   (snd (addAccount \<lparr>accountId = ''user2@gmail.com'', service = ''gmail''\<rparr>
                     (snd (addAccount \<lparr>accountId = ''user1@gmail.com'', service = ''gmail''\<rparr> (\<lambda>k. None)))))),
              oauth_log = []\<rparr>)
        ''gmail'' [''user1@gmail.com'', ''user2@gmail.com''] ''work''
       = Some ''user2@gmail.com''
   \<and> ''user2@gmail.com'' \<noteq> []
   \<and> (\<exists>w'. account_switch ''gmail'' (\<lambda>hint st. (Inl (AuthRejected ''unused''), st)) ''u'' ''t''
                 \<lparr>p_email = Some ''work'', p_alias = None\<rparr>
                 \<lparr>kv = snd (setAccountInfo \<lparr>accountId = ''user2@gmail.com'', service = ''gmail''\<rparr>
                     \<lparr>email = ''user2@gmail.com'', alias = Some ''work'', addedAt = ''t0'',
                      lastUsed = None, metadata = None\<rparr>
                   (snd (addAccount \<lparr>accountId = ''user2@gmail.com'', service = ''gmail''\<rparr>
                     (snd (addAccount \<lparr>accountId = ''user1@gmail.com'', service = ''gmail''\<rparr> (\<lambda>k. None)))))),
                  oauth_log = []\<rparr>
               = (Inr \<lparr>r_email = ''user2@gmail.com'', isNew = False, totalAccounts = 2\<rparr>, w')
             \<and> oauth_log w' = []
             \<and> fst (getActiveAccount ''gmail'' (kv w')) = Inr (Some (JStr ''user2@gmail.com'')))"
proof -
  let ?st = "snd (setAccountInfo \<lparr>accountId = ''user2@gmail.com'', service = ''gmail''\<rparr>
                     \<lparr>email = ''user2@gmail.com'', alias = Some ''work'', addedAt = ''t0'',
                      lastUsed = None, metadata = None\<rparr>
                   (snd (addAccount \<lparr>accountId = ''user2@gmail.com'', service = ''gmail''\<rparr>
                     (snd (addAccount \<lparr>accountId = ''user1@gmail.com'', service = ''gmail''\<rparr> (\<lambda>k. None))))))"
  let ?w = "\<lparr>kv = ?st, oauth_log = []\<rparr>"
  let ?p = "\<lparr>p_email = Some ''work'', p_alias = None\<rparr>"
  have g: "p_email ?p = Some ''work''" and s: "''work'' \<noteq> []" by simp_all
  have l: "fst (getLinkedAccounts ''gmail'' (kv ?w)) = Inr (JArr [''user1@gmail.com'', ''user2@gmail.com''])"
    by (simp add: handler_eval)
  have v: "\<forall>x \<in> set [''user1@gmail.com'', ''user2@gmail.com'']. \<not> has_colon x"
    by (simp add: has_colon_def)
  have r: "spec_resolve_reference (kv ?w) ''gmail'' [''user1@gmail.com'', ''user2@gmail.com''] ''work''
             = Some ''user2@gmail.com''"
    by (simp add: spec_resolve_reference_def handler_eval)
  have n: "''user2@gmail.com'' \<noteq> []" by simp
  from switch_reuses_linked_account [where auth = "\<lambda>hint st. (Inl (AuthRejected ''unused''), st)"
      and uuid = "''u''" and now = "''t''", OF g s l v r n] g s l v r n
  show ?thesis by (simp add: numeral_2_eq_2)
qed

text \<open>
  C2 as stated fails in two ways. When the reference resolves to the account with the
  empty identifier (the alias \<open>work\<close> resolves to it), \<open>if (accountId)\<close> is false for the
  empty string, and the handler calls \<open>auth.getAccessToken\<close> once and then throws. And
  when an earlier linked identifier contains a colon (\<open>addAccount\<close> does not validate
  it), the alias \<open>work\<close> of \<open>c@x.com\<close> is never reached: the scan throws the
  key-parameter error on \<open>a:b\<close>, the handler fails, and the pointer stays where it was.
\<close>

theorem switch_empty_account_id_counterexample:
  "spec_resolve_reference
        (snd (setAccountInfo \<lparr>accountId = [], service = ''gmail''\<rparr>
                \<lparr>email = [], alias = Some ''work'', addedAt = ''t0'', lastUsed = None, metadata = None\<rparr>
              (snd (addAccount \<lparr>accountId = [], service = ''gmail''\<rparr> (\<lambda>k. None)))))
        ''gmail'' [[]] ''work''
       = Some []
   \<and> fst (findAccountByEmailOrAlias ''gmail'' ''work''
        (snd (setAccountInfo \<lparr>accountId = [], service = ''gmail''\<rparr>
                \<lparr>email = [], alias = Some ''work'', addedAt = ''t0'', lastUsed = None, metadata = None\<rparr>
              (snd (addAccount \<lparr>accountId = [], service = ''gmail''\<rparr> (\<lambda>k. None))))))
       = Inr (Some [])
   \<and> fst (getLinkedAccounts ''gmail''
        (snd (setAccountInfo \<lparr>accountId = [], service = ''gmail''\<rparr>
                \<lparr>email = [], alias = Some ''work'', addedAt = ''t0'', lastUsed = None, metadata = None\<rparr>
              (snd (addAccount \<lparr>accountId = [], service = ''gmail''\<rparr> (\<lambda>k. None))))))
       = Inr (JArr [[]])
   \<and> fst (account_switch ''gmail'' (\<lambda>hint st. (Inr ''token'', st)) ''u'' ''t''
          \<lparr>p_email = Some ''work'', p_alias = None\<rparr>
          \<lparr>kv = snd (setAccountInfo \<lparr>accountId = [], service = ''gmail''\<rparr>
                \<lparr>email = [], alias = Some ''work'', addedAt = ''t0'', lastUsed = None, metadata = None\<rparr>
              (snd (addAccount \<lparr>accountId = [], service = ''gmail''\<rparr> (\<lambda>k. None)))),
           oauth_log = []\<rparr>)
       = Inl (McpError ''Error switching gmail account: '' OAuthNoActiveAccount)
   \<and> oauth_log (snd (account_switch ''gmail'' (\<lambda>hint st. (Inr ''token'', st)) ''u'' ''t''
          \<lparr>p_email = Some ''work'', p_alias = None\<rparr>
          \<lparr>kv = snd (setAccountInfo \<lparr>accountId = [], service = ''gmail''\<rparr>
                \<lparr>email = [], alias = Some ''work'', addedAt = ''t0'', lastUsed = None, metadata = None\<rparr>
              (snd (addAccount \<lparr>accountId = [], service = ''gmail''\<rparr> (\<lambda>k. None)))),
           oauth_log = []\<rparr>))
       = [''new:u'']
   \<and> fst (getLinkedAccounts ''gmail''
        (snd (setAccountInfo \<lparr>accountId = ''c@x.com'', service = ''gmail''\<rparr>
                \<lparr>email = ''c@x.com'', alias = Some ''work'', addedAt = ''t0'', lastUsed = None, metadata = None\<rparr>
              (snd (addAccount \<lparr>accountId = ''c@x.com'', service = ''gmail''\<rparr>
                (snd (addAccount \<lparr>accountId = ''a:b'', service = ''gmail''\<rparr> (\<lambda>k. None))))))))
       = Inr (JArr [''a:b'', ''c@x.com''])
   \<and> spec_resolve_reference
        (snd (setAccountInfo \<lparr>accountId = ''c@x.com'', service = ''gmail''\<rparr>
                \<lparr>email = ''c@x.com'', alias = Some ''work'', addedAt = ''t0'', lastUsed = None, metadata = None\<rparr>
              (snd (addAccount \<lparr>accountId = ''c@x.com'', service = ''gmail''\<rparr>
                (snd (addAccount \<lparr>accountId = ''a:b'', service = ''gmail''\<rparr> (\<lambda>k. None)))))))
        ''gmail'' [''a:b'', ''c@x.com''] ''work''
       = Some ''c@x.com''
   \<and> fst (account_switch ''gmail'' (\<lambda>hint st. (Inr ''token'', st)) ''u'' ''t''
          \<lparr>p_email = Some ''work'', p_alias = None\<rparr>
          \<lparr>kv = snd (setAccountInfo \<lparr>accountId = ''c@x.com'', service = ''gmail''\<rparr>
                \<lparr>email = ''c@x.com'', alias = Some ''work'', addedAt = ''t0'', lastUsed = None, metadata = None\<rparr>
              (snd (addAccount \<lparr>accountId = ''c@x.com'', service = ''gmail''\<rparr>
                (snd (addAccount \<lparr>accountId = ''a:b'', service = ''gmail''\<rparr> (\<lambda>k. None)))))),
           oauth_log = []\<rparr>)
       = Inl (McpError ''Error switching gmail account: '' InvalidKeyParameter)
   \<and> fst (getActiveAccount ''gmail'' (kv (snd (account_switch ''gmail'' (\<lambda>hint st. (Inr ''token'', st)) ''u'' ''t''
          \<lparr>p_email = Some ''work'', p_alias = None\<rparr>
          \<lparr>kv = snd (setAccountInfo \<lparr>accountId = ''c@x.com'', service = ''gmail''\<rparr>
                \<lparr>email = ''c@x.com'', alias = Some ''work'', addedAt = ''t0'', lastUsed = None, metadata = None\<rparr>
              (snd (addAccount \<lparr>accountId = ''c@x.com'', service = ''gmail''\<rparr>
                (snd (addAccount \<lparr>accountId = ''a:b'', service = ''gmail''\<rparr> (\<lambda>k. None)))))),
           oauth_log = []\<rparr>))))
       = Inr (Some (JStr ''a:b''))"
  by (simp add: handler_eval spec_resolve_reference_def)

text \<open>
  C3. The claim says that on the OAuth path, for an account that was already linked and
  had an alias, the stored alias is unchanged when no alias argument is supplied. The code
  rebuilds the metadata from \<open>email\<close>, the alias argument and \<open>addedAt\<close> alone: with
  \<open>a@x.com\<close> linked under the alias \<open>work\<close>, a switch without arguments whose OAuth
  flow resolves to \<open>a@x.com\<close> reports \<open>isNew = false\<close>, keeps the list at one entry and
  \<open>addedAt\<close> as it was, and stores metadata without the alias.
\<close>

theorem switch_oauth_drops_existing_alias:
  "fst (getAccountInfo \<lparr>accountId = ''a@x.com'', service = ''gmail''\<rparr>
        (snd (setAccountInfo \<lparr>accountId = ''a@x.com'', service = ''gmail''\<rparr>
                \<lparr>email = ''a@x.com'', alias = Some ''work'', addedAt = ''t0'', lastUsed = None, metadata = None\<rparr>
              (snd (addAccount \<lparr>accountId = ''a@x.com'', service = ''gmail''\<rparr> (\<lambda>k. None))))))
     = Inr (Some (JInfo \<lparr>email = ''a@x.com'', alias = Some ''work'', addedAt = ''t0'',
                          lastUsed = None, metadata = None\<rparr>))
   \<and> fst (account_switch ''gmail'' (\<lambda>hint st. (Inr ''token'', st)) ''u'' ''t1''
          \<lparr>p_email = None, p_alias = None\<rparr>
          \<lparr>kv = snd (setAccountInfo \<lparr>accountId = ''a@x.com'', service = ''gmail''\<rparr>
                \<lparr>email = ''a@x.com'', alias = Some ''work'', addedAt = ''t0'', lastUsed = None, metadata = None\<rparr>
              (snd (addAccount \<lparr>accountId = ''a@x.com'', service = ''gmail''\<rparr> (\<lambda>k. None)))),
           oauth_log = []\<rparr>)
       = Inr \<lparr>r_email = ''a@x.com'', isNew = False, totalAccounts = 1\<rparr>
   \<and> fst (getAccountInfo \<lparr>accountId = ''a@x.com'', service = ''gmail''\<rparr>
        (kv (snd (account_switch ''gmail'' (\<lambda>hint st. (Inr ''token'', st)) ''u'' ''t1''
          \<lparr>p_email = None, p_alias = None\<rparr>
          \<lparr>kv = snd (setAccountInfo \<lparr>accountId = ''a@x.com'', service = ''gmail''\<rparr>
                \<lparr>email = ''a@x.com'', alias = Some ''work'', addedAt = ''t0'', lastUsed = None, metadata = None\<rparr>
              (snd (addAccount \<lparr>accountId = ''a@x.com'', service = ''gmail''\<rparr> (\<lambda>k. None)))),
           oauth_log = []\<rparr>))))
     = Inr (Some (JInfo \<lparr>email = ''a@x.com'', alias = None, addedAt = ''t0'',
                          lastUsed = None, metadata = None\<rparr>))
   \<and> fst (getLinkedAccounts ''gmail''
        (kv (snd (account_switch ''gmail'' (\<lambda>hint st. (Inr ''token'', st)) ''u'' ''t1''
          \<lparr>p_email = None, p_alias = None\<rparr>
          \<lparr>kv = snd (setAccountInfo \<lparr>accountId = ''a@x.com'', service = ''gmail''\<rparr>
                \<lparr>email = ''a@x.com'', alias = Some ''work'', addedAt = ''t0'', lastUsed = None, metadata = None\<rparr>
              (snd (addAccount \<lparr>accountId = ''a@x.com'', service = ''gmail''\<rparr> (\<lambda>k. None)))),
           oauth_log = []\<rparr>))))
     = Inr (JArr [''a@x.com''])"
  by (simp add: handler_eval)


text \<open>The OAuth path for an account that is already linked, in general: the list is not
  written, \<open>addedAt\<close> is kept, and the alias stored is the alias argument or none.\<close>

lemma switch_oauth_existing_account:
  assumes valid: "\<not> has_colon svc" and valid_em: "\<not> has_colon em" and nonempty: "em \<noteq> []"
    and member: "em \<in> set xs"
    and flow: "auth (''new:'' @ uuid) (kv w) = (Inr token, st1)"
    and pointer: "st1 (svc @ '':active'') = Some (JStr em)"
  shows "switch_oauth svc auth uuid now params (JArr xs) w =
           (Inr \<lparr>r_email = em, isNew = False, totalAccounts = length xs\<rparr>,
            \<lparr>kv = st1(em @ '':'' @ svc @ '':metadata'' \<mapsto>
                     JInfo \<lparr>email = em,
                            alias = (if str_truthy (p_alias params) then p_alias params else None),
                            addedAt = (case info_addedAt (st1 (em @ '':'' @ svc @ '':metadata'')) of
                                         Some t \<Rightarrow> t | None \<Rightarrow> now),
                            lastUsed = None, metadata = None\<rparr>,
                   svc @ '':active'' \<mapsto> JStr em),
             oauth_log = oauth_log w @ [''new:'' @ uuid]\<rparr>)"
  using assms
  by (simp add: switch_oauth_def io_bind_def io_return_def call_getAccessToken_eq in_store_eq
      getActiveAccount_eq as_array_eq getAccountInfo_eq setAccountInfo_eq setActiveAccount_eq)

end
